theory Spec2Isabelle
  imports Complex_Main "HOL-Library.Log_Nat"
begin

section \<open>The credit, settlement and earnings ledger of MuseMarket\<close>

text \<open>
  The controller \<^verbatim>\<open>simplePurchaseController\<close> (createPurchase, getCreditBalance,
  settleCredit, claimCreatorEarnings) works on five MongoDB collections through
  Mongoose models. The collections are lists of records in insertion order, a request
  handler is a function from the database to an outcome and the database it leaves
  behind. A handler that throws after it has already written leaves those writes in
  place (there is no transaction), so a failure returns the database as well.

  Document ids are natural numbers drawn from a counter. The clock (\<^verbatim>\<open>Date.now()\<close>,
  the timestamps of Mongoose) is read once per request and is an argument of the
  handler.
\<close>

type_synonym oid = nat

subsection \<open>Numbers\<close>

text \<open>
  A JavaScript \<^verbatim>\<open>Number\<close> is an IEEE 754 double. A finite double is a rational, so a
  number is a \<^typ>\<open>rat\<close>, and \<^verbatim>\<open>a + b\<close> and \<^verbatim>\<open>a - b\<close> are the exact sum and
  difference rounded to the nearest double, ties to the even mantissa. Comparisons and
  \<^verbatim>\<open>Math.min\<close> are exact. The exponent is not bounded above: \<^verbatim>\<open>Infinity\<close> and
  \<^verbatim>\<open>NaN\<close> are not numbers here (a sum of prices, each at most 10000, that leaves the
  range of a double has more than \<open>10\<^sup>3\<^sup>0\<^sup>0\<close> terms). Counters (\<^verbatim>\<open>salesCount\<close>,
  \<^verbatim>\<open>totalSales\<close>) are natural numbers, which doubles add exactly below \<open>2\<^sup>5\<^sup>3\<close>.
\<close>

text \<open>The exponent of the leading bit: \<open>2 powi ilog2 x \<le> x < 2 powi (ilog2 x + 1)\<close>.\<close>

definition ilog2 :: "rat \<Rightarrow> int" where
  "ilog2 x = (if 1 \<le> x then bitlen \<lfloor>x\<rfloor> - 1 else - bitlen (\<lceil>1 / x\<rceil> - 1))"

definition round_half_even :: "rat \<Rightarrow> int" where
  "round_half_even r =
     (let f = \<lfloor>r\<rfloor>; d = r - of_int f
      in if d < 1 / 2 then f else if 1 / 2 < d then f + 1 else if even f then f else f + 1)"

text \<open>
  The spacing of the doubles around \<open>x > 0\<close>: 53 bits of mantissa, and \<open>2 powi - 1074\<close>
  in the subnormal range.
\<close>

definition quantum :: "rat \<Rightarrow> rat" where
  "quantum x = 2 powi (max (ilog2 x - 52) (- 1074))"

definition round_double :: "rat \<Rightarrow> rat" where
  "round_double x =
     (if x = 0 then 0
      else if 0 < x then of_int (round_half_even (x / quantum x)) * quantum x
      else - (of_int (round_half_even (- x / quantum (- x))) * quantum (- x)))"

definition js_add :: "rat \<Rightarrow> rat \<Rightarrow> rat" where
  "js_add a b = round_double (a + b)"

definition js_sub :: "rat \<Rightarrow> rat \<Rightarrow> rat" where
  "js_sub a b = round_double (a - b)"

definition is_double :: "rat \<Rightarrow> bool" where
  "is_double x = (round_double x = x)"

subsection \<open>Documents\<close>

text \<open>Content (ContentSchema): only the fields the ledger reads or writes.\<close>

record content =
  c_id :: oid
  c_creator :: oid
  c_price :: rat
  c_salesCount :: nat

datatype purchase_status = PPending | PCompleted | PFailed | PRefunded

text \<open>Purchase (PurchaseSchema); \<^verbatim>\<open>transactionHash\<close> carries a unique index.\<close>

record purchase =
  p_id :: oid
  p_buyer :: oid
  p_content :: oid
  p_amount :: rat
  p_transactionHash :: string
  p_status :: purchase_status

text \<open>SimpleCredit (SimpleCreditSchema).\<close>

record simple_credit =
  k_id :: oid
  k_user :: oid
  k_creditBalance :: rat
  k_settledTransactions :: "string list"

datatype earning_status = Pending | Claimed

text \<open>CreatorEarnings (CreatorEarningsSchema).\<close>

record creator_earnings =
  e_id :: oid
  e_creator :: oid
  e_content :: oid
  e_purchase :: oid
  e_amount :: rat
  e_status :: earning_status
  e_claimedAt :: "nat option"
  e_transactionHash :: "string option"
  e_createdAt :: nat

text \<open>User (UserSchema): the wallet address and the two aggregates.\<close>

record user =
  u_id :: oid
  u_walletAddress :: string
  u_totalEarnings :: rat
  u_totalSales :: nat

record db =
  contents :: "content list"
  purchases :: "purchase list"
  credits :: "simple_credit list"
  earnings :: "creator_earnings list"
  users :: "user list"
  nextId :: oid

subsection \<open>Outcomes\<close>

text \<open>
  Every \<^verbatim>\<open>throw new AppError(message, status)\<close> of the controller is one constructor,
  named as the specification names it:
  \<^item> ContentNotFound: \<^verbatim>\<open>Content not found\<close> (404);
  \<^item> AlreadyPurchased: \<^verbatim>\<open>Content already purchased\<close> (400);
  \<^item> InsufficientCredit: \<^verbatim>\<open>Insufficient credit\<close> (400);
  \<^item> LedgerNotFound: \<^verbatim>\<open>Credit not found\<close> (404);
  \<^item> NothingToSettle: \<^verbatim>\<open>No pending purchases to settle\<close> (400);
  \<^item> InvalidReference: \<^verbatim>\<open>Valid transaction hash is required\<close> (400);
  \<^item> DuplicateSettlement: \<^verbatim>\<open>Transaction hash already used for settlement\<close> (400);
  \<^item> InvalidAmount: \<^verbatim>\<open>Valid amount is required\<close> (400);
  \<^item> NoPayoutAddress: \<^verbatim>\<open>Creator wallet address not found\<close> (400);
  \<^item> NoPendingEarnings: \<^verbatim>\<open>No pending earnings to claim\<close> (400);
  \<^item> ExceedsAvailable: \<^verbatim>\<open>Cannot claim more than available\<close> (400);
  \<^item> PayoutFailed: \<^verbatim>\<open>Failed to transfer PYUSD\<close> (500).

  The last two are the errors Mongoose raises from \<^verbatim>\<open>save\<close> and
  \<^verbatim>\<open>updateMany\<close>: a schema validator (\<^verbatim>\<open>min: 0\<close>) and the unique index on
  \<^verbatim>\<open>Purchase.transactionHash\<close>. The validator of \<^verbatim>\<open>SimpleCredit.creditBalance\<close>
  never fires, since a balance is only lowered by a price it is not below, and the one
  of \<^verbatim>\<open>CreatorEarnings.amount\<close> sees the amount the purchase was saved with.
\<close>

datatype error =
    ContentNotFound
  | AlreadyPurchased
  | InsufficientCredit
  | LedgerNotFound
  | NothingToSettle
  | InvalidReference
  | DuplicateSettlement
  | InvalidAmount
  | NoPayoutAddress
  | NoPendingEarnings
  | ExceedsAvailable
  | PayoutFailed
  | ValidationFailed
  | DuplicateKey

datatype response =
    PurchaseCreated oid oid oid rat string purchase_status rat
  | CreditBalance rat oid
  | CreditSettled rat string nat rat
  | EarningsClaimed rat nat rat string string

type_synonym outcome = "(error + response) \<times> db"

text \<open>A value of a JSON request body, as far as \<^verbatim>\<open>!v\<close> and \<^verbatim>\<open>typeof v\<close> tell values apart.\<close>

datatype jsval = JUndefined | JNull | JBool bool | JNum rat | JStr string | JObject

fun truthy :: "jsval \<Rightarrow> bool" where
  "truthy JUndefined = False"
| "truthy JNull = False"
| "truthy (JBool b) = b"
| "truthy (JNum n) = (n \<noteq> 0)"
| "truthy (JStr s) = (s \<noteq> [])"
| "truthy JObject = True"

fun the_string :: "jsval \<Rightarrow> string option" where
  "the_string (JStr s) = Some s"
| "the_string _ = None"

subsection \<open>Strings\<close>

definition digit_char :: "nat \<Rightarrow> char" where
  "digit_char d = char_of (48 + d)"

fun decimal :: "nat \<Rightarrow> string" where
  "decimal n = (if n < 10 then [digit_char n] else decimal (n div 10) @ [digit_char (n mod 10)])"

declare decimal.simps [simp del]

text \<open>The regular expression \<^verbatim>\<open>/^credit_/\<close>.\<close>

definition starts_with :: "string \<Rightarrow> string \<Rightarrow> bool" where
  "starts_with pre s = (take (length pre) s = pre)"

definition is_credit_marker :: "string \<Rightarrow> bool" where
  "is_credit_marker s = starts_with ''credit_'' s"

subsection \<open>Queries and single-document writes\<close>

definition findContent :: "oid \<Rightarrow> db \<Rightarrow> content option" where
  "findContent cid d = find (\<lambda>c. c_id c = cid) (contents d)"

definition findPurchase :: "oid \<Rightarrow> oid \<Rightarrow> db \<Rightarrow> purchase option" where
  "findPurchase buyerId cid d =
     find (\<lambda>p. p_buyer p = buyerId \<and> p_content p = cid) (purchases d)"

definition findCredit :: "oid \<Rightarrow> db \<Rightarrow> simple_credit option" where
  "findCredit uid d = find (\<lambda>k. k_user k = uid) (credits d)"

definition findUser :: "oid \<Rightarrow> db \<Rightarrow> user option" where
  "findUser uid d = find (\<lambda>u. u_id u = uid) (users d)"

text \<open>\<^verbatim>\<open>userCredit.save()\<close> on a document that is already stored: replaced by its id.\<close>

definition updateCredit :: "simple_credit \<Rightarrow> db \<Rightarrow> db" where
  "updateCredit k d =
     d\<lparr>credits := map (\<lambda>k'. if k_id k' = k_id k then k else k') (credits d)\<rparr>"

text \<open>
  The lookup both createPurchase and getCreditBalance start with:
  \<^verbatim>\<open>SimpleCredit.findOne({ user })\<close>, and a new document with balance 100 saved when
  there is none.
\<close>

definition getOrCreateCredit :: "oid \<Rightarrow> db \<Rightarrow> simple_credit \<times> db" where
  "getOrCreateCredit uid d =
     (case findCredit uid d of
        Some k \<Rightarrow> (k, d)
      | None \<Rightarrow>
          (let k = \<lparr>k_id = nextId d, k_user = uid, k_creditBalance = 100,
                    k_settledTransactions = []\<rparr>
           in (k, d\<lparr>credits := credits d @ [k], nextId := Suc (nextId d)\<rparr>)))"

text \<open>\<^verbatim>\<open>Content.findByIdAndUpdate(id, { $inc: { salesCount: 1 } })\<close>.\<close>

definition incSalesCount :: "oid \<Rightarrow> db \<Rightarrow> db" where
  "incSalesCount cid d =
     d\<lparr>contents := map (\<lambda>c. if c_id c = cid then c\<lparr>c_salesCount := c_salesCount c + 1\<rparr> else c)
                       (contents d)\<rparr>"

text \<open>\<^verbatim>\<open>User.findByIdAndUpdate(id, { $inc: { totalEarnings: a, totalSales: n } })\<close>.\<close>

definition incUserTotals :: "oid \<Rightarrow> rat \<Rightarrow> nat \<Rightarrow> db \<Rightarrow> db" where
  "incUserTotals uid a n d =
     d\<lparr>users := map (\<lambda>u. if u_id u = uid
                           then u\<lparr>u_totalEarnings := js_add (u_totalEarnings u) a,
                                 u_totalSales := u_totalSales u + n\<rparr>
                           else u) (users d)\<rparr>"

text \<open>
  The pre-save middleware of PurchaseSchema. A document saved with a status that was
  set to \<^verbatim>\<open>completed\<close> bumps the sales count of its content and adds its amount to the
  \<^verbatim>\<open>totalEarnings\<close> of the content's creator.
\<close>

definition purchasePreSave :: "purchase \<Rightarrow> db \<Rightarrow> db" where
  "purchasePreSave p d =
     (if p_status p = PCompleted then
        (let d1 = incSalesCount (p_content p) d
         in case findContent (p_content p) d1 of
              None \<Rightarrow> d1
            | Some c \<Rightarrow> incUserTotals (c_creator c) (p_amount p) 0 d1)
      else d)"

text \<open>
  \<^verbatim>\<open>purchase.save()\<close> of a new document: the schema validation (\<^verbatim>\<open>amount\<close> has
  \<^verbatim>\<open>min: 0\<close>), then the pre-save middleware, then the insert, which the unique index
  on \<^verbatim>\<open>transactionHash\<close> refuses when another purchase has the same value.
\<close>

definition savePurchase :: "purchase \<Rightarrow> db \<Rightarrow> error option \<times> db" where
  "savePurchase p d =
     (if p_amount p < 0 then (Some ValidationFailed, d)
      else
        (let d1 = purchasePreSave p d
         in if \<exists>q \<in> set (purchases d1). p_transactionHash q = p_transactionHash p
            then (Some DuplicateKey, d1)
            else (None, d1\<lparr>purchases := purchases d1 @ [p]\<rparr>)))"

subsection \<open>createPurchase\<close>

definition createPurchase :: "nat \<Rightarrow> oid \<Rightarrow> oid \<Rightarrow> db \<Rightarrow> outcome" where
  "createPurchase now buyerId contentId d =
     (case findContent contentId d of
        None \<Rightarrow> (Inl ContentNotFound, d)
      | Some content \<Rightarrow>
          (case findPurchase buyerId contentId d of
             Some existingPurchase \<Rightarrow> (Inl AlreadyPurchased, d)
           | None \<Rightarrow>
               (let (userCredit, d1) = getOrCreateCredit buyerId d
                in if k_creditBalance userCredit < c_price content
                   then (Inl InsufficientCredit, d1)
                   else
                     (let userCredit' = userCredit\<lparr>k_creditBalance :=
                                           js_sub (k_creditBalance userCredit) (c_price content)\<rparr>;
                          d2 = updateCredit userCredit' d1;
                          purchase = \<lparr>p_id = nextId d2, p_buyer = buyerId,
                                      p_content = contentId, p_amount = c_price content,
                                      p_transactionHash = ''credit_'' @ decimal now,
                                      p_status = PCompleted\<rparr>;
                          d3 = d2\<lparr>nextId := Suc (nextId d2)\<rparr>
                      in case savePurchase purchase d3 of
                           (Some err, d4) \<Rightarrow> (Inl err, d4)
                         | (None, d4) \<Rightarrow>
                             (let d5 = incSalesCount contentId d4;
                                  creatorEarnings =
                                    \<lparr>e_id = nextId d5, e_creator = c_creator content,
                                     e_content = contentId, e_purchase = p_id purchase,
                                     e_amount = c_price content, e_status = Pending,
                                     e_claimedAt = None, e_transactionHash = None,
                                     e_createdAt = now\<rparr>;
                                  d6 = d5\<lparr>earnings := earnings d5 @ [creatorEarnings],
                                         nextId := Suc (nextId d5)\<rparr>
                              in (Inr (PurchaseCreated (p_id purchase) buyerId contentId
                                         (p_amount purchase) (p_transactionHash purchase)
                                         (p_status purchase)
                                         (k_creditBalance userCredit')), d6))))))"

subsection \<open>getCreditBalance\<close>

definition getCreditBalance :: "oid \<Rightarrow> db \<Rightarrow> outcome" where
  "getCreditBalance userId d =
     (let (userCredit, d1) = getOrCreateCredit userId d
      in (Inr (CreditBalance (k_creditBalance userCredit) userId), d1))"

subsection \<open>settleCredit\<close>

text \<open>The filter \<^verbatim>\<open>{ buyer: userId, transactionHash: { $regex: /^credit_/ } }\<close>.\<close>

definition is_pending_purchase :: "oid \<Rightarrow> purchase \<Rightarrow> bool" where
  "is_pending_purchase userId p = (p_buyer p = userId \<and> is_credit_marker (p_transactionHash p))"

text \<open>
  \<^verbatim>\<open>Purchase.updateMany(filter, { transactionHash: h })\<close>. The documents are written
  one after the other in collection order; \<open>acc\<close> holds the part of the collection
  already passed. A write that would give two purchases the same
  \<^verbatim>\<open>transactionHash\<close> is refused by the unique index: the update stops there with
  the earlier writes in place.
\<close>

fun updateManyPurchases ::
  "oid \<Rightarrow> string \<Rightarrow> purchase list \<Rightarrow> purchase list \<Rightarrow> error option \<times> purchase list" where
  "updateManyPurchases userId h acc [] = (None, acc)"
| "updateManyPurchases userId h acc (p # ps) =
     (if is_pending_purchase userId p then
        (if \<exists>q \<in> set (acc @ ps). p_transactionHash q = h
         then (Some DuplicateKey, acc @ p # ps)
         else updateManyPurchases userId h (acc @ [p\<lparr>p_transactionHash := h\<rparr>]) ps)
      else updateManyPurchases userId h (acc @ [p]) ps)"

text \<open>
  \<^verbatim>\<open>CreatorEarnings.updateMany({ purchase: { $in: purchaseIds } }, { transactionHash })\<close>:
  the status is not touched.
\<close>

definition attachSettlement :: "oid list \<Rightarrow> string \<Rightarrow> db \<Rightarrow> db" where
  "attachSettlement purchaseIds h d =
     d\<lparr>earnings := map (\<lambda>e. if e_purchase e \<in> set purchaseIds
                              then e\<lparr>e_transactionHash := Some h\<rparr> else e) (earnings d)\<rparr>"

text \<open>\<^verbatim>\<open>purchases.reduce((sum, purchase) => sum + purchase.amount, 0)\<close>.\<close>

definition sumPurchases :: "purchase list \<Rightarrow> rat" where
  "sumPurchases ps = foldl (\<lambda>sum purchase. js_add sum (p_amount purchase)) 0 ps"

definition settleCredit :: "oid \<Rightarrow> jsval \<Rightarrow> db \<Rightarrow> outcome" where
  "settleCredit userId transactionHash d =
     (case findCredit userId d of
        None \<Rightarrow> (Inl LedgerNotFound, d)
      | Some userCredit \<Rightarrow>
          (let pendingPurchases = filter (is_pending_purchase userId) (purchases d)
           in if length pendingPurchases = 0 then (Inl NothingToSettle, d)
              else
                (let totalAmount = sumPurchases pendingPurchases
                 in if \<not> truthy transactionHash then (Inl InvalidReference, d)
                    else
                      (case the_string transactionHash of
                         None \<Rightarrow> (Inl InvalidReference, d)
                       | Some h \<Rightarrow>
                           if h \<in> set (k_settledTransactions userCredit)
                           then (Inl DuplicateSettlement, d)
                           else
                             (let userCredit' = userCredit\<lparr>k_creditBalance := 100,
                                     k_settledTransactions :=
                                       k_settledTransactions userCredit @ [h]\<rparr>;
                                  d1 = updateCredit userCredit' d
                              in case updateManyPurchases userId (''settled_'' @ h) []
                                        (purchases d1) of
                                   (Some err, ps) \<Rightarrow> (Inl err, d1\<lparr>purchases := ps\<rparr>)
                                 | (None, ps) \<Rightarrow>
                                     (let d2 = d1\<lparr>purchases := ps\<rparr>;
                                          purchaseIds = map p_id pendingPurchases;
                                          d3 = attachSettlement purchaseIds h d2
                                      in (Inr (CreditSettled totalAmount h
                                                 (length pendingPurchases)
                                                 (k_creditBalance userCredit')), d3)))))))"

subsection \<open>claimCreatorEarnings\<close>

text \<open>
  \<^verbatim>\<open>CreatorEarnings.find({ creator, status: 'pending' }).sort({ createdAt: 1 })\<close>:
  oldest first, documents of equal age in collection order.
\<close>

definition pendingEarningsOf :: "oid \<Rightarrow> db \<Rightarrow> creator_earnings list" where
  "pendingEarningsOf userId d =
     sort_key e_createdAt (filter (\<lambda>e. e_creator e = userId \<and> e_status e = Pending) (earnings d))"

text \<open>
  The three assignments of the loop body: \<^verbatim>\<open>status = 'claimed'\<close>,
  \<^verbatim>\<open>claimedAt = new Date()\<close>, \<^verbatim>\<open>transactionHash = transferTransactionHash\<close>.
\<close>

definition markClaimed :: "nat \<Rightarrow> string \<Rightarrow> creator_earnings \<Rightarrow> creator_earnings" where
  "markClaimed now tx earning =
     earning\<lparr>e_status := Claimed, e_claimedAt := Some now, e_transactionHash := Some tx\<rparr>"

text \<open>
  The loop over \<^verbatim>\<open>pendingEarnings\<close>: the documents it marks claimed, each with the
  \<^verbatim>\<open>claimAmount\<close> pushed to \<^verbatim>\<open>claimedEarnings\<close>.
\<close>

fun claimLoop :: "nat \<Rightarrow> string \<Rightarrow> rat \<Rightarrow> creator_earnings list \<Rightarrow> (creator_earnings \<times> rat) list" where
  "claimLoop now tx remainingToClaim [] = []"
| "claimLoop now tx remainingToClaim (earning # rest) =
     (if remainingToClaim \<le> 0 then []
      else
        (let claimAmount = min remainingToClaim (e_amount earning);
             earning' = markClaimed now tx earning
         in (earning', claimAmount) #
            claimLoop now tx (js_sub remainingToClaim claimAmount) rest))"

text \<open>\<^verbatim>\<open>pendingEarnings.reduce((sum, earning) => sum + earning.amount, 0)\<close>.\<close>

definition sumEarnings :: "creator_earnings list \<Rightarrow> rat" where
  "sumEarnings es = foldl (\<lambda>sum earning. js_add sum (e_amount earning)) 0 es"

text \<open>\<^verbatim>\<open>earning.save()\<close> on a stored document: replaced by its id.\<close>

definition saveEarning :: "creator_earnings \<Rightarrow> db \<Rightarrow> db" where
  "saveEarning e d =
     d\<lparr>earnings := map (\<lambda>e'. if e_id e' = e_id e then e else e') (earnings d)\<rparr>"

text \<open>
  The payout service \<^verbatim>\<open>WalletService.transferPYUSD(address, amount)\<close> is outside the
  ledger: it is the argument \<open>transfer\<close>, which gives the transaction hash of the
  transfer, or \<open>None\<close> when the call throws. The request body's \<^verbatim>\<open>amount\<close> is a
  JSON number; a body whose \<^verbatim>\<open>amount\<close> is a string, a boolean or an object is not a
  request of this model.
\<close>

type_synonym payout = "string \<Rightarrow> rat \<Rightarrow> string option"

definition claimCreatorEarnings :: "payout \<Rightarrow> nat \<Rightarrow> oid \<Rightarrow> rat \<Rightarrow> db \<Rightarrow> outcome" where
  "claimCreatorEarnings transfer now userId amount d =
     (if amount = 0 \<or> amount \<le> 0 then (Inl InvalidAmount, d)
      else
        (case findUser userId d of
           None \<Rightarrow> (Inl NoPayoutAddress, d)
         | Some creator \<Rightarrow>
             if u_walletAddress creator = [] then (Inl NoPayoutAddress, d)
             else
               (let pendingEarnings = pendingEarningsOf userId d
                in if length pendingEarnings = 0 then (Inl NoPendingEarnings, d)
                   else
                     (let totalPendingAmount = sumEarnings pendingEarnings
                      in if amount > totalPendingAmount then (Inl ExceedsAvailable, d)
                         else
                           (case transfer (u_walletAddress creator) amount of
                              None \<Rightarrow> (Inl PayoutFailed, d)
                            | Some transferTransactionHash \<Rightarrow>
                                (let claimedEarnings =
                                       claimLoop now transferTransactionHash amount pendingEarnings;
                                     d1 = fold saveEarning (map fst claimedEarnings) d;
                                     d2 = incUserTotals userId amount (length claimedEarnings) d1
                                 in (Inr (EarningsClaimed amount (length claimedEarnings)
                                            (js_sub totalPendingAmount amount)
                                            transferTransactionHash
                                            (u_walletAddress creator)), d2)))))))"

subsection \<open>Sequences of requests\<close>

datatype request =
    GetCreditBalance oid
  | CreatePurchase nat oid oid
  | SettleCredit oid jsval
  | ClaimCreatorEarnings nat oid rat

fun handle :: "payout \<Rightarrow> request \<Rightarrow> db \<Rightarrow> outcome" where
  "handle transfer (GetCreditBalance u) d = getCreditBalance u d"
| "handle transfer (CreatePurchase now u c) d = createPurchase now u c d"
| "handle transfer (SettleCredit u h) d = settleCredit u h d"
| "handle transfer (ClaimCreatorEarnings now u a) d = claimCreatorEarnings transfer now u a d"

text \<open>The database after a sequence of requests, served one after the other.\<close>

fun run :: "payout \<Rightarrow> request list \<Rightarrow> db \<Rightarrow> db" where
  "run transfer [] d = d"
| "run transfer (r # rs) d = run transfer rs (snd (handle transfer r d))"

subsection \<open>Observations\<close>

text \<open>The credit balance of a buyer, when the buyer has a ledger.\<close>

definition creditBalanceOf :: "oid \<Rightarrow> db \<Rightarrow> rat option" where
  "creditBalanceOf uid d = map_option k_creditBalance (findCredit uid d)"

text \<open>The invariant of the ledger and the range the Content schema gives a price.\<close>

definition credit_in_range :: "db \<Rightarrow> bool" where
  "credit_in_range d = list_all (\<lambda>k. 0 \<le> k_creditBalance k \<and> k_creditBalance k \<le> 100) (credits d)"

definition prices_valid :: "db \<Rightarrow> bool" where
  "prices_valid d = list_all (\<lambda>c. 0 \<le> c_price c \<and> c_price c \<le> 10000) (contents d)"

text \<open>
  Ids are unique within the SimpleCredit collection, and older than the counter. MongoDB
  guarantees it of every collection; it is spelled out where a property needs it.
\<close>

definition credit_ids_wf :: "db \<Rightarrow> bool" where
  "credit_ids_wf d =
     (distinct (map k_id (credits d)) \<and> list_all (\<lambda>k. k_id k < nextId d) (credits d))"

text \<open>The buyer's ledger records the reference as settled.\<close>

definition settledWith :: "oid \<Rightarrow> string \<Rightarrow> db \<Rightarrow> bool" where
  "settledWith uid h d =
     (case findCredit uid d of None \<Rightarrow> False | Some k \<Rightarrow> h \<in> set (k_settledTransactions k))"

text \<open>
  The shape the vault's validator \<^verbatim>\<open>validateRecordDeposit\<close> asks of a transaction
  hash: \<^verbatim>\<open>body('transactionHash').isLength({ min: 66, max: 66 })\<close>.
\<close>

definition has_hash_shape :: "string \<Rightarrow> bool" where
  "has_hash_shape s = (length s = 66)"

text \<open>Every stored balance is a double.\<close>

definition balances_double :: "db \<Rightarrow> bool" where
  "balances_double d = list_all (\<lambda>k. is_double (k_creditBalance k)) (credits d)"

text \<open>
  \<^verbatim>\<open>remainingToClaim\<close> after the body of the claim loop has run on each of the given
  earnings.
\<close>

definition remainingAfter :: "rat \<Rightarrow> creator_earnings list \<Rightarrow> rat" where
  "remainingAfter remainingToClaim es =
     fold (\<lambda>earning r. js_sub r (min r (e_amount earning))) es remainingToClaim"


text \<open>The sums of a creator's earnings by status, as rationals.\<close>

definition earningsTotal :: "earning_status \<Rightarrow> oid \<Rightarrow> db \<Rightarrow> rat" where
  "earningsTotal st uid d =
     sum_list (map e_amount (filter (\<lambda>e. e_creator e = uid \<and> e_status e = st) (earnings d)))"

definition totalEarningsOf :: "oid \<Rightarrow> db \<Rightarrow> rat" where
  "totalEarningsOf uid d = (case findUser uid d of None \<Rightarrow> 0 | Some u \<Rightarrow> u_totalEarnings u)"

subsection \<open>A small shop\<close>

text \<open>
  Four users (1, 3 and 4 buy, 2 creates) and five contents of creator 2, nothing sold
  yet.
\<close>

definition base_db :: db where
  "base_db =
     \<lparr>contents = [\<lparr>c_id = 10, c_creator = 2, c_price = 30, c_salesCount = 0\<rparr>,
                  \<lparr>c_id = 11, c_creator = 2, c_price = 50, c_salesCount = 0\<rparr>,
                  \<lparr>c_id = 12, c_creator = 2, c_price = 80, c_salesCount = 0\<rparr>,
                  \<lparr>c_id = 13, c_creator = 2, c_price = 0, c_salesCount = 0\<rparr>,
                  \<lparr>c_id = 14, c_creator = 2, c_price = 100, c_salesCount = 0\<rparr>],
      purchases = [], credits = [], earnings = [],
      users = [\<lparr>u_id = 1, u_walletAddress = ''0xb1'', u_totalEarnings = 0, u_totalSales = 0\<rparr>,
               \<lparr>u_id = 2, u_walletAddress = ''0xc2'', u_totalEarnings = 0, u_totalSales = 0\<rparr>,
               \<lparr>u_id = 3, u_walletAddress = ''0xb3'', u_totalEarnings = 0, u_totalSales = 0\<rparr>,
               \<lparr>u_id = 4, u_walletAddress = ''0xb4'', u_totalEarnings = 0, u_totalSales = 0\<rparr>],
      nextId = 97\<rparr>"

text \<open>
  The shop after buyer 4 has bought content 14 for 100 at time 3 and buyer 3 content 12
  for 80 at time 4, both on credit: balances 0 and 20, two purchases, two pending
  earnings of creator 2. Buyer 1 has no ledger yet.
\<close>

definition demo_db :: db where
  "demo_db =
     \<lparr>contents = [\<lparr>c_id = 10, c_creator = 2, c_price = 30, c_salesCount = 0\<rparr>,
                  \<lparr>c_id = 11, c_creator = 2, c_price = 50, c_salesCount = 0\<rparr>,
                  \<lparr>c_id = 12, c_creator = 2, c_price = 80, c_salesCount = 2\<rparr>,
                  \<lparr>c_id = 13, c_creator = 2, c_price = 0, c_salesCount = 0\<rparr>,
                  \<lparr>c_id = 14, c_creator = 2, c_price = 100, c_salesCount = 2\<rparr>],
      purchases = [\<lparr>p_id = 98, p_buyer = 4, p_content = 14, p_amount = 100,
                    p_transactionHash = ''credit_3'', p_status = PCompleted\<rparr>,
                   \<lparr>p_id = 101, p_buyer = 3, p_content = 12, p_amount = 80,
                    p_transactionHash = ''credit_4'', p_status = PCompleted\<rparr>],
      credits = [\<lparr>k_id = 97, k_user = 4, k_creditBalance = 0, k_settledTransactions = []\<rparr>,
                 \<lparr>k_id = 100, k_user = 3, k_creditBalance = 20, k_settledTransactions = []\<rparr>],
      earnings = [\<lparr>e_id = 99, e_creator = 2, e_content = 14, e_purchase = 98, e_amount = 100,
                   e_status = Pending, e_claimedAt = None, e_transactionHash = None,
                   e_createdAt = 3\<rparr>,
                  \<lparr>e_id = 102, e_creator = 2, e_content = 12, e_purchase = 101, e_amount = 80,
                   e_status = Pending, e_claimedAt = None, e_transactionHash = None,
                   e_createdAt = 4\<rparr>],
      users = [\<lparr>u_id = 1, u_walletAddress = ''0xb1'', u_totalEarnings = 0, u_totalSales = 0\<rparr>,
               \<lparr>u_id = 2, u_walletAddress = ''0xc2'', u_totalEarnings = 180, u_totalSales = 0\<rparr>,
               \<lparr>u_id = 3, u_walletAddress = ''0xb3'', u_totalEarnings = 0, u_totalSales = 0\<rparr>,
               \<lparr>u_id = 4, u_walletAddress = ''0xb4'', u_totalEarnings = 0, u_totalSales = 0\<rparr>],
      nextId = 103\<rparr>"

text \<open>
  A second shop, with prices in cents: the doubles nearest to 4.65, 63.87, 31.48, 25.93,
  68.19, 0.1 and 0.2, nothing sold yet.
\<close>

definition cents_base :: db where
  "cents_base =
     \<lparr>contents = [\<lparr>c_id = 20, c_creator = 2, c_price = 2617717283409101 / 562949953421312,
                   c_salesCount = 0\<rparr>,
                  \<lparr>c_id = 21, c_creator = 2, c_price = 8988903381254799 / 140737488355328,
                   c_salesCount = 0\<rparr>,
                  \<lparr>c_id = 22, c_creator = 2, c_price = 8860832266851451 / 281474976710656,
                   c_salesCount = 0\<rparr>,
                  \<lparr>c_id = 23, c_creator = 5, c_price = 3649323073053655 / 140737488355328,
                   c_salesCount = 0\<rparr>,
                  \<lparr>c_id = 24, c_creator = 5, c_price = 1199611166368727 / 17592186044416,
                   c_salesCount = 0\<rparr>,
                  \<lparr>c_id = 25, c_creator = 6, c_price = 3602879701896397 / 36028797018963968,
                   c_salesCount = 0\<rparr>,
                  \<lparr>c_id = 26, c_creator = 6, c_price = 3602879701896397 / 18014398509481984,
                   c_salesCount = 0\<rparr>],
      purchases = [], credits = [], earnings = [],
      users = [\<lparr>u_id = 1, u_walletAddress = ''0xb1'', u_totalEarnings = 0, u_totalSales = 0\<rparr>,
               \<lparr>u_id = 2, u_walletAddress = ''0xc2'', u_totalEarnings = 0, u_totalSales = 0\<rparr>,
               \<lparr>u_id = 3, u_walletAddress = ''0xb3'', u_totalEarnings = 0, u_totalSales = 0\<rparr>,
               \<lparr>u_id = 4, u_walletAddress = ''0xb4'', u_totalEarnings = 0, u_totalSales = 0\<rparr>,
               \<lparr>u_id = 5, u_walletAddress = ''0xc5'', u_totalEarnings = 0, u_totalSales = 0\<rparr>,
               \<lparr>u_id = 6, u_walletAddress = ''0xc6'', u_totalEarnings = 0, u_totalSales = 0\<rparr>],
      nextId = 200\<rparr>"

text \<open>
  The second shop after buyer 3 has bought contents 23 and 24 at times 11 and 12 and
  buyer 4 contents 25 and 26 at times 13 and 14: creator 5 has 25.93 and 68.19 pending,
  creator 6 has 0.1 and 0.2.
\<close>

definition cents_db :: db where
  "cents_db =
     \<lparr>contents = [\<lparr>c_id = 20, c_creator = 2, c_price = 2617717283409101 / 562949953421312,
                   c_salesCount = 0\<rparr>,
                  \<lparr>c_id = 21, c_creator = 2, c_price = 8988903381254799 / 140737488355328,
                   c_salesCount = 0\<rparr>,
                  \<lparr>c_id = 22, c_creator = 2, c_price = 8860832266851451 / 281474976710656,
                   c_salesCount = 0\<rparr>,
                  \<lparr>c_id = 23, c_creator = 5, c_price = 3649323073053655 / 140737488355328,
                   c_salesCount = 2\<rparr>,
                  \<lparr>c_id = 24, c_creator = 5, c_price = 1199611166368727 / 17592186044416,
                   c_salesCount = 2\<rparr>,
                  \<lparr>c_id = 25, c_creator = 6, c_price = 3602879701896397 / 36028797018963968,
                   c_salesCount = 2\<rparr>,
                  \<lparr>c_id = 26, c_creator = 6, c_price = 3602879701896397 / 18014398509481984,
                   c_salesCount = 2\<rparr>],
      purchases = [\<lparr>p_id = 201, p_buyer = 3, p_content = 23,
                    p_amount = 3649323073053655 / 140737488355328,
                    p_transactionHash = ''credit_11'', p_status = PCompleted\<rparr>,
                   \<lparr>p_id = 203, p_buyer = 3, p_content = 24,
                    p_amount = 1199611166368727 / 17592186044416,
                    p_transactionHash = ''credit_12'', p_status = PCompleted\<rparr>,
                   \<lparr>p_id = 206, p_buyer = 4, p_content = 25,
                    p_amount = 3602879701896397 / 36028797018963968,
                    p_transactionHash = ''credit_13'', p_status = PCompleted\<rparr>,
                   \<lparr>p_id = 208, p_buyer = 4, p_content = 26,
                    p_amount = 3602879701896397 / 18014398509481984,
                    p_transactionHash = ''credit_14'', p_status = PCompleted\<rparr>],
      credits = [\<lparr>k_id = 200, k_user = 3, k_creditBalance = 51721026970583 / 8796093022208,
                  k_settledTransactions = []\<rparr>,
                 \<lparr>k_id = 205, k_user = 4, k_creditBalance = 7015763794513101 / 70368744177664,
                  k_settledTransactions = []\<rparr>],
      earnings = [\<lparr>e_id = 202, e_creator = 5, e_content = 23, e_purchase = 201,
                   e_amount = 3649323073053655 / 140737488355328, e_status = Pending,
                   e_claimedAt = None, e_transactionHash = None, e_createdAt = 11\<rparr>,
                  \<lparr>e_id = 204, e_creator = 5, e_content = 24, e_purchase = 203,
                   e_amount = 1199611166368727 / 17592186044416, e_status = Pending,
                   e_claimedAt = None, e_transactionHash = None, e_createdAt = 12\<rparr>,
                  \<lparr>e_id = 207, e_creator = 6, e_content = 25, e_purchase = 206,
                   e_amount = 3602879701896397 / 36028797018963968, e_status = Pending,
                   e_claimedAt = None, e_transactionHash = None, e_createdAt = 13\<rparr>,
                  \<lparr>e_id = 209, e_creator = 6, e_content = 26, e_purchase = 208,
                   e_amount = 3602879701896397 / 18014398509481984, e_status = Pending,
                   e_claimedAt = None, e_transactionHash = None, e_createdAt = 14\<rparr>],
      users = [\<lparr>u_id = 1, u_walletAddress = ''0xb1'', u_totalEarnings = 0, u_totalSales = 0\<rparr>,
               \<lparr>u_id = 2, u_walletAddress = ''0xc2'', u_totalEarnings = 0, u_totalSales = 0\<rparr>,
               \<lparr>u_id = 3, u_walletAddress = ''0xb3'', u_totalEarnings = 0, u_totalSales = 0\<rparr>,
               \<lparr>u_id = 4, u_walletAddress = ''0xb4'', u_totalEarnings = 0, u_totalSales = 0\<rparr>,
               \<lparr>u_id = 5, u_walletAddress = ''0xc5'',
                u_totalEarnings = 827888275250217 / 8796093022208, u_totalSales = 0\<rparr>,
               \<lparr>u_id = 6, u_walletAddress = ''0xc6'',
                u_totalEarnings = 1351079888211149 / 4503599627370496, u_totalSales = 0\<rparr>],
      nextId = 210\<rparr>"


section \<open>Properties\<close>

subsection \<open>Rounding to a double\<close>

text \<open>
  The doubles of the decimal literals that the second shop uses, and the sum
  \<^verbatim>\<open>0.1 + 0.2\<close>, which is the double of the literal 0.30000000000000004.
\<close>

lemma round_double_examples:
  "round_double (1 / 10) = 3602879701896397 / 36028797018963968"
  "round_double (2 / 10) = 3602879701896397 / 18014398509481984"
  "round_double (465 / 100) = 2617717283409101 / 562949953421312"
  "round_double (6387 / 100) = 8988903381254799 / 140737488355328"
  "round_double (3148 / 100) = 8860832266851451 / 281474976710656"
  "round_double (2593 / 100) = 3649323073053655 / 140737488355328"
  "round_double (6819 / 100) = 1199611166368727 / 17592186044416"
  "round_double (9535 / 100) = 3354829878670131 / 35184372088832"
  "round_double (9412 / 100) = 827888275250217 / 8796093022208"
  "round_double (30000000000000004 / 100000000000000000) = 1351079888211149 / 4503599627370496"
  "js_add (3602879701896397 / 36028797018963968) (3602879701896397 / 18014398509481984)
     = 1351079888211149 / 4503599627370496"
  "round_double 100 = 100"
  by code_simp+

lemma ilog2_bounds:
  assumes "0 < x"
  shows "2 powi (ilog2 x) \<le> x" and "x < 2 powi (ilog2 x + 1)"
proof -
  have "2 powi (ilog2 x) \<le> x \<and> x < 2 powi (ilog2 x + 1)"
  proof (cases "1 \<le> x")
    case True
    let ?n = "\<lfloor>x\<rfloor>"
    have n: "0 < ?n" using True by linarith
    from bitlen_bounds[OF n] have lo: "2 ^ nat (bitlen ?n - 1) \<le> ?n" and hi: "?n < 2 ^ nat (bitlen ?n)"
      by simp_all
    have b1: "1 \<le> bitlen ?n" using n by (simp add: bitlen_alt_def)
    have e: "ilog2 x = bitlen ?n - 1" using True by (simp add: ilog2_def)
    have "(2::rat) powi (bitlen ?n - 1) = of_int (2 ^ nat (bitlen ?n - 1))"
      using b1 by (simp add: power_int_nonneg_exp)
    also have "\<dots> \<le> of_int ?n" using lo by (simp only: of_int_le_iff)
    also have "\<dots> \<le> x" by simp
    finally have 1: "2 powi (ilog2 x) \<le> x" using e by simp
    have "x < of_int (?n + 1)" by linarith
    also have "\<dots> \<le> of_int (2 ^ nat (bitlen ?n))"
    proof -
      have "?n + 1 \<le> 2 ^ nat (bitlen ?n)" using hi by simp
      thus ?thesis by (simp only: of_int_le_iff)
    qed
    also have "\<dots> = (2::rat) powi (bitlen ?n)" using b1 by (simp add: power_int_nonneg_exp)
    finally have "x < 2 powi (ilog2 x + 1)" using e by simp
    with 1 show ?thesis by simp
  next
    case False
    hence x1: "x < 1" by simp
    let ?c = "\<lceil>1 / x\<rceil>"
    let ?n = "?c - 1"
    have g: "1 < 1 / x" using assms x1 by simp
    have n: "0 < ?n" using g by linarith
    from bitlen_bounds[OF n] have lo: "2 ^ nat (bitlen ?n - 1) \<le> ?n" and hi: "?n < 2 ^ nat (bitlen ?n)"
      by simp_all
    have b1: "1 \<le> bitlen ?n" using n by (simp add: bitlen_alt_def)
    have e: "ilog2 x = - bitlen ?n" using False by (simp add: ilog2_def)
    have p: "(2::rat) powi (bitlen ?n) = of_int (2 ^ nat (bitlen ?n))"
      using b1 by (simp add: power_int_nonneg_exp)
    have p1: "(2::rat) powi (bitlen ?n - 1) = of_int (2 ^ nat (bitlen ?n - 1))"
      using b1 by (simp add: power_int_nonneg_exp)
    have "1 / x \<le> of_int ?c" by simp
    also have "\<dots> \<le> of_int (2 ^ nat (bitlen ?n))"
    proof -
      have "?c \<le> 2 ^ nat (bitlen ?n)" using hi by simp
      thus ?thesis by (simp only: of_int_le_iff)
    qed
    finally have "1 / x \<le> 2 powi (bitlen ?n)" using p by simp
    hence "1 / (2 powi (bitlen ?n)) \<le> x" using assms
      by (simp add: field_simps)
    hence 1: "2 powi (ilog2 x) \<le> x" using e by (simp add: power_int_minus_divide)
    have "(2::rat) powi (bitlen ?n - 1) \<le> of_int ?n" using lo p1 by (simp only: of_int_le_iff)
    also have "\<dots> < 1 / x" by linarith
    finally have "2 powi (bitlen ?n - 1) < 1 / x" .
    hence "x < 1 / (2 powi (bitlen ?n - 1))" using assms
      by (simp add: field_simps)
    also have "\<dots> = 2 powi (- (bitlen ?n - 1))" by (rule power_int_minus_divide[symmetric])
    finally have "x < 2 powi (ilog2 x + 1)" using e by simp
    with 1 show ?thesis by simp
  qed
  thus "2 powi (ilog2 x) \<le> x" and "x < 2 powi (ilog2 x + 1)" by simp_all
qed


lemma rhe_of_int [simp]: "round_half_even (of_int n) = n"
  by (simp add: round_half_even_def)

lemma rhe_le: "r \<le> of_int N \<Longrightarrow> round_half_even r \<le> N"
proof -
  assume a: "r \<le> of_int N"
  show ?thesis
  proof (cases "r = of_int N")
    case True thus ?thesis by simp
  next
    case False
    hence "r < of_int N" using a by simp
    hence "\<lfloor>r\<rfloor> < N" by linarith
    thus ?thesis by (simp add: round_half_even_def Let_def)
  qed
qed

lemma rhe_ge: "of_int N \<le> r \<Longrightarrow> N \<le> round_half_even r"
proof -
  assume "of_int N \<le> r"
  hence "N \<le> \<lfloor>r\<rfloor>" by linarith
  thus ?thesis by (simp add: round_half_even_def Let_def)
qed

lemma rhe_small: "0 \<le> r \<Longrightarrow> r < 1 / 2 \<Longrightarrow> round_half_even r = 0"
proof -
  assume a: "0 \<le> r" "r < 1 / 2"
  hence "\<lfloor>r\<rfloor> = 0" by linarith
  thus ?thesis using a by (simp add: round_half_even_def Let_def)
qed

lemma two_powi_pos [simp]: "0 < (2::rat) powi k"
  by (simp add: power_int_def)

lemma two_powi_less_iff: "(2::rat) powi a < 2 powi b \<longleftrightarrow> a < b"
proof
  assume l: "(2::rat) powi a < 2 powi b"
  show "a < b"
  proof (rule ccontr)
    assume "\<not> a < b"
    hence "b \<le> a" by simp
    hence "(2::rat) powi b \<le> 2 powi a" by (intro power_int_increasing) simp_all
    with l show False by simp
  qed
next
  assume "a < b"
  thus "(2::rat) powi a < 2 powi b" by (intro power_int_strict_increasing) simp_all
qed

lemma two_powi_le_iff: "(2::rat) powi a \<le> 2 powi b \<longleftrightarrow> a \<le> b"
  using two_powi_less_iff[of b a] by (simp add: not_less[symmetric])

lemma two_powi_int: "0 \<le> k \<Longrightarrow> (2::rat) powi k = of_int (2 ^ nat k)"
  by (simp add: power_int_nonneg_exp)

lemma two_powi_div: "(2::rat) powi a / 2 powi b = 2 powi (a - b)"
  by (simp add: power_int_diff)

lemma ilog2_le: "0 < y \<Longrightarrow> y < 2 powi (k + 1) \<Longrightarrow> ilog2 y \<le> k"
proof -
  assume y: "0 < y" "y < 2 powi (k + 1)"
  have "(2::rat) powi (ilog2 y) < 2 powi (k + 1)" using ilog2_bounds(1)[OF y(1)] y(2) by simp
  thus ?thesis by (simp add: two_powi_less_iff)
qed

lemma quantum_pos [simp]: "0 < quantum x"
  by (simp add: quantum_def)

lemma quantum_nonneg [simp]: "0 \<le> quantum x"
  by (rule less_imp_le) simp


lemma two_powi_multiple:
  assumes "a \<le> b"
  shows "(2::rat) powi b = of_int (2 ^ nat (b - a)) * 2 powi a"
proof -
  have "(2::rat) powi b = 2 powi (b - a) * 2 powi a" by (simp flip: power_int_add)
  thus ?thesis using assms by (simp add: two_powi_int)
qed

lemma round_multiple: "0 < Q \<Longrightarrow> of_int (round_half_even (of_int K * Q / Q)) * Q = of_int K * Q"
  by simp

lemma quantum_eq: "quantum x = 2 powi (max (ilog2 x - 52) (- 1074))"
  by (simp add: quantum_def)

lemma round_pos_fixed:
  assumes x: "0 < x"
  defines "y \<equiv> of_int (round_half_even (x / quantum x)) * quantum x"
  shows "0 \<le> y" and "0 < y \<Longrightarrow> of_int (round_half_even (y / quantum y)) * quantum y = y"
proof -
  let ?e = "ilog2 x"
  let ?q = "max (?e - 52) (- 1074)"
  let ?r = "round_half_even (x / quantum x)"
  have Q: "quantum x = 2 powi ?q" by (rule quantum_eq)
  have m0: "0 \<le> x / quantum x"
  proof (rule divide_nonneg_pos)
    show "0 \<le> x" using x by simp
    show "0 < quantum x" by simp
  qed
  hence r0: "0 \<le> ?r" using rhe_ge[of 0 "x / quantum x"] by simp
  thus y0: "0 \<le> y" by (simp add: y_def)
  assume yp: "0 < y"
  hence rp: "0 < ?r" using r0 by (cases "?r = 0") (simp_all add: y_def)
  have xlt: "x < 2 powi (?e + 1)" by (rule ilog2_bounds(2)[OF x])
  have eq: "?q \<le> ?e + 1"
  proof (rule ccontr)
    assume "\<not> ?q \<le> ?e + 1"
    hence "?e + 1 \<le> ?q - 1" by simp
    hence "(2::rat) powi (?e + 1) \<le> 2 powi (?q - 1)" by (simp only: two_powi_le_iff)
    hence "x < 2 powi (?q - 1)" using xlt by simp
    also have "\<dots> = 2 powi ?q / 2" by (simp add: power_int_diff)
    finally have "x / quantum x < 1 / 2" using Q by (simp add: field_simps)
    hence "?r = 0" using m0 by (rule rhe_small[rotated])
    thus False using rp by simp
  qed
  have up: "(2::rat) powi (?e + 1) = of_int (2 ^ nat (?e + 1 - ?q)) * quantum x"
    using two_powi_multiple[OF eq] Q by simp
  hence "x / quantum x \<le> of_int (2 ^ nat (?e + 1 - ?q))"
    using xlt by (simp add: field_simps)
  hence "?r \<le> 2 ^ nat (?e + 1 - ?q)" by (rule rhe_le)
  hence "(of_int ?r :: rat) \<le> of_int (2 ^ nat (?e + 1 - ?q))" by (simp only: of_int_le_iff)
  hence "of_int ?r * quantum x \<le> of_int (2 ^ nat (?e + 1 - ?q)) * quantum x"
    by (rule mult_right_mono) (simp add: less_imp_le)
  hence yle: "y \<le> 2 powi (?e + 1)" unfolding y_def up .
  have "y < 2 powi (?e + 1 + 1)"
  proof -
    have "(2::rat) powi (?e + 1) < 2 powi (?e + 1 + 1)" by (simp add: two_powi_less_iff)
    with yle show ?thesis by simp
  qed
  hence e': "ilog2 y \<le> ?e + 1" using yp by (intro ilog2_le)
  let ?q' = "max (ilog2 y - 52) (- 1074)"
  have Q': "quantum y = 2 powi ?q'" by (rule quantum_eq)
  have y1: "y = of_int ?r * quantum x" by (simp add: y_def)
  have "\<exists>K. y = of_int K * quantum y"
  proof (cases "ilog2 y \<le> ?e")
    case True
    hence "?q' \<le> ?q" by simp
    from two_powi_multiple[OF this]
    have "quantum x = of_int (2 ^ nat (?q - ?q')) * quantum y"
      by (simp only: Q[symmetric] Q'[symmetric])
    hence "y = (of_int ?r * of_int (2 ^ nat (?q - ?q'))) * quantum y"
      using y1 by (simp only: mult.assoc)
    hence "y = of_int (?r * 2 ^ nat (?q - ?q')) * quantum y"
      by (simp only: of_int_mult)
    thus ?thesis by blast
  next
    case False
    hence ee: "ilog2 y = ?e + 1" using e' by simp
    have "2 powi (?e + 1) \<le> y" using ilog2_bounds(1)[OF yp] ee by simp
    hence yeq: "y = 2 powi (?e + 1)" using yle by simp
    have "?q' \<le> ?e + 1" using eq ee by simp
    from two_powi_multiple[OF this]
    have "(2::rat) powi (?e + 1) = of_int (2 ^ nat (?e + 1 - ?q')) * quantum y"
      by (simp only: Q'[symmetric])
    with yeq have "y = of_int (2 ^ nat (?e + 1 - ?q')) * quantum y" by (rule trans)
    thus ?thesis by blast
  qed
  then obtain K where K: "y = of_int K * quantum y" by blast
  have "of_int (round_half_even (of_int K * quantum y / quantum y)) * quantum y = of_int K * quantum y"
    by (rule round_multiple) simp
  thus "of_int (round_half_even (y / quantum y)) * quantum y = y" using K by simp
qed

lemma round_double_nonneg: "0 \<le> x \<Longrightarrow> 0 \<le> round_double x"
  using round_pos_fixed(1)[of x] by (cases "x = 0") (simp_all add: round_double_def)

lemma round_double_idem [simp]: "round_double (round_double x) = round_double x"
proof -
  have pos: "round_double (round_double x) = round_double x" if "0 < x" for x
  proof -
    let ?y = "of_int (round_half_even (x / quantum x)) * quantum x"
    have y: "round_double x = ?y" using that by (simp add: round_double_def)
    show ?thesis
    proof (cases "?y = 0")
      case True thus ?thesis using y by (simp add: round_double_def)
    next
      case False
      have "0 \<le> ?y" by (rule round_pos_fixed(1)[OF that])
      with False have "0 < ?y" by linarith
      from round_pos_fixed(2)[OF that this] this show ?thesis
        unfolding y by (simp add: round_double_def)
    qed
  qed
  have neg: "round_double (- x) = - round_double x" for x
    by (simp add: round_double_def)
  consider "x = 0" | "0 < x" | "x < 0" by linarith
  thus ?thesis
  proof cases
    case 1 thus ?thesis by (simp add: round_double_def)
  next
    case 2 thus ?thesis by (rule pos)
  next
    case 3
    hence "0 < - x" by simp
    from pos[OF this] show ?thesis unfolding neg by simp
  qed
qed

lemma round_double_le_100:
  assumes "0 \<le> x" and "x \<le> 100"
  shows "round_double x \<le> 100"
proof (cases "x = 0")
  case True thus ?thesis by (simp add: round_double_def)
next
  case False
  hence x: "0 < x" using assms by simp
  have "x < 2 powi (6 + 1)" using assms by simp
  hence "ilog2 x \<le> 6" using x by (intro ilog2_le)
  hence q: "max (ilog2 x - 52) (- 1074) \<le> 0" by simp
  from two_powi_multiple[OF this]
  have "(100::rat) = of_int (100 * 2 ^ nat (0 - max (ilog2 x - 52) (- 1074))) * quantum x"
    by (simp add: quantum_eq)
  then obtain K where K: "(100::rat) = of_int K * quantum x" by blast
  have "x / quantum x \<le> of_int K" using assms K by (simp add: field_simps)
  hence "round_half_even (x / quantum x) \<le> K" by (rule rhe_le)
  hence "(of_int (round_half_even (x / quantum x)) :: rat) \<le> of_int K" by (simp only: of_int_le_iff)
  hence "of_int (round_half_even (x / quantum x)) * quantum x \<le> of_int K * quantum x"
    by (rule mult_right_mono) (simp add: less_imp_le)
  also have "\<dots> = 100" using K by simp
  finally show ?thesis using x by (simp add: round_double_def)
qed

lemma js_sub_in_range:
  "0 \<le> p \<Longrightarrow> p \<le> b \<Longrightarrow> b \<le> 100 \<Longrightarrow> 0 \<le> js_sub b p \<and> js_sub b p \<le> 100"
  unfolding js_sub_def by (intro conjI round_double_nonneg round_double_le_100) simp_all

lemma is_double_js_sub [simp]: "is_double (js_sub a b)"
  by (simp add: is_double_def js_sub_def)

lemma is_double_100 [simp]: "is_double 100"
  unfolding is_double_def by code_simp


lemma demo_db_reachable:
  "run transfer [CreatePurchase 3 4 14, CreatePurchase 4 3 12] base_db = demo_db"
  by code_simp

lemma cents_db_reachable:
  "run transfer [CreatePurchase 11 3 23, CreatePurchase 12 3 24, CreatePurchase 13 4 25,
     CreatePurchase 14 4 26] cents_base = cents_db"
  by code_simp

subsection \<open>Looking a ledger up and writing it back\<close>

lemma find_snoc:
  "find P (xs @ [y]) = (case find P xs of Some x \<Rightarrow> Some x | None \<Rightarrow> if P y then Some y else None)"
  by (induction xs) auto

lemma find_replace_by_id:
  assumes "find (\<lambda>k. k_user k = u) ks = Some k" and "k_user k' = u" and "k_id k' = k_id k"
  shows "find (\<lambda>k. k_user k = u) (map (\<lambda>x. if k_id x = k_id k then k' else x) ks) = Some k'"
  using assms by (induction ks) (auto split: if_splits)

lemma findCredit_getOrCreate:
  "getOrCreateCredit u d = (k, d1) \<Longrightarrow> findCredit u d1 = Some k"
  by (auto simp: getOrCreateCredit_def findCredit_def Let_def find_snoc split: option.splits)

lemma getOrCreate_user: "getOrCreateCredit u d = (k, d1) \<Longrightarrow> k_user k = u"
  by (auto simp: getOrCreateCredit_def findCredit_def Let_def find_Some_iff split: option.splits)

lemma getOrCreate_rest:
  "getOrCreateCredit u d = (k, d1) \<Longrightarrow>
     contents d1 = contents d \<and> purchases d1 = purchases d \<and> earnings d1 = earnings d \<and>
     users d1 = users d"
  by (auto simp: getOrCreateCredit_def Let_def split: option.splits)

lemma findCredit_updateCredit:
  "findCredit u d = Some k \<Longrightarrow> k_user k' = u \<Longrightarrow> k_id k' = k_id k \<Longrightarrow>
   findCredit u (updateCredit k' d) = Some k'"
  unfolding findCredit_def updateCredit_def by (simp add: find_replace_by_id)

subsection \<open>createPurchase\<close>



lemma createPurchase_appends:
  assumes "createPurchase now buyerId contentId d = (Inr r, d')"
  shows "\<exists>content p e.
           findContent contentId d = Some content \<and>
           purchases d' = purchases d @ [p] \<and>
           p_buyer p = buyerId \<and> p_content p = contentId \<and> p_amount p = c_price content \<and>
           earnings d' = earnings d @ [e] \<and>
           e_creator e = c_creator content \<and> e_content e = contentId \<and>
           e_purchase e = p_id p \<and> e_status e = Pending \<and> e_amount e = p_amount p"
  using assms
  by (auto simp: createPurchase_def savePurchase_def purchasePreSave_def incSalesCount_def
        incUserTotals_def updateCredit_def getOrCreateCredit_def Let_def
      split: option.splits prod.splits if_splits)




text \<open>
  Claim C9. A createPurchase that succeeds appends exactly one purchase and exactly
  one earning: the earning belongs to the creator of the content, refers to the new
  purchase, is pending, and its amount is the amount of the purchase, which is the
  price of the content.
\<close>

theorem purchase_creates_one_pending_earning:
  assumes "createPurchase now buyerId contentId d = (Inr r, d')"
  shows "\<exists>content p e.
           findContent contentId d = Some content \<and>
           purchases d' = purchases d @ [p] \<and>
           p_buyer p = buyerId \<and> p_content p = contentId \<and> p_amount p = c_price content \<and>
           earnings d' = earnings d @ [e] \<and>
           e_creator e = c_creator content \<and> e_content e = contentId \<and>
           e_purchase e = p_id p \<and> e_status e = Pending \<and> e_amount e = p_amount p"
  using assms by (rule createPurchase_appends)

theorem purchase_creates_one_pending_earning_witness:
  "fst (createPurchase 5 1 10 demo_db) = Inr (PurchaseCreated 104 1 10 30 ''credit_5'' PCompleted 70)
   \<and> (\<exists>content p e.
           findContent 10 demo_db = Some content \<and>
           purchases (snd (createPurchase 5 1 10 demo_db)) = purchases demo_db @ [p] \<and>
           p_buyer p = 1 \<and> p_content p = 10 \<and> p_amount p = c_price content \<and>
           earnings (snd (createPurchase 5 1 10 demo_db)) = earnings demo_db @ [e] \<and>
           e_creator e = c_creator content \<and> e_content e = 10 \<and>
           e_purchase e = p_id p \<and> e_status e = Pending \<and> e_amount e = p_amount p)"
proof -
  have f: "fst (createPurchase 5 1 10 demo_db) =
             Inr (PurchaseCreated 104 1 10 30 ''credit_5'' PCompleted 70)"
    by code_simp
  hence "createPurchase 5 1 10 demo_db =
           (Inr (PurchaseCreated 104 1 10 30 ''credit_5'' PCompleted 70),
            snd (createPurchase 5 1 10 demo_db))"
    by (simp add: prod_eq_iff)
  from purchase_creates_one_pending_earning[OF this] f show ?thesis by simp
qed

subsection \<open>The credit balance under every request\<close>

lemma fold_saveEarning_rest [simp]:
  "contents (fold saveEarning es d) = contents d"
  "credits (fold saveEarning es d) = credits d"
  "purchases (fold saveEarning es d) = purchases d"
  "users (fold saveEarning es d) = users d"
  "nextId (fold saveEarning es d) = nextId d"
  by (induction es arbitrary: d) (auto simp: saveEarning_def)

lemma findContent_price:
  "prices_valid d \<Longrightarrow> findContent c d = Some x \<Longrightarrow> 0 \<le> c_price x \<and> c_price x \<le> 10000"
  by (auto simp: prices_valid_def findContent_def find_Some_iff list_all_iff)

lemma getOrCreate_in_range:
  "credit_in_range d \<Longrightarrow> getOrCreateCredit u d = (k, d1) \<Longrightarrow>
     credit_in_range d1 \<and> 0 \<le> k_creditBalance k \<and> k_creditBalance k \<le> 100"
  by (auto simp: credit_in_range_def getOrCreateCredit_def findCredit_def find_Some_iff list_all_iff Let_def
      split: option.splits)

lemma updateCredit_in_range:
  "credit_in_range d \<Longrightarrow> 0 \<le> k_creditBalance k \<Longrightarrow> k_creditBalance k \<le> 100 \<Longrightarrow>
     credit_in_range (updateCredit k d)"
  by (auto simp: credit_in_range_def updateCredit_def list_all_iff)

lemma createPurchase_credits:
  assumes "getOrCreateCredit u d = (k, d1)"
  shows "credits (snd (createPurchase now u c d)) = credits d \<or>
         credits (snd (createPurchase now u c d)) = credits d1 \<or>
         (\<exists>x. findContent c d = Some x \<and> c_price x \<le> k_creditBalance k \<and>
              credits (snd (createPurchase now u c d)) =
                credits (updateCredit (k\<lparr>k_creditBalance := js_sub (k_creditBalance k) (c_price x)\<rparr>) d1))"
  using assms
  by (auto simp: createPurchase_def savePurchase_def purchasePreSave_def incSalesCount_def
        incUserTotals_def updateCredit_def Let_def
      split: option.splits prod.splits if_splits)

lemma createPurchase_contents:
  "map c_price (contents (snd (createPurchase now u c d))) = map c_price (contents d)"
  by (auto simp: createPurchase_def savePurchase_def purchasePreSave_def incSalesCount_def
        incUserTotals_def updateCredit_def getOrCreateCredit_def Let_def comp_def
      split: option.splits prod.splits if_splits)


lemma updateManyPurchases_ok:
  "updateManyPurchases u h acc ps = (None, r) \<Longrightarrow>
     r = acc @ map (\<lambda>p. if is_pending_purchase u p then p\<lparr>p_transactionHash := h\<rparr> else p) ps"
  by (induction u h acc ps rule: updateManyPurchases.induct) (auto split: if_splits)

lemma settleCredit_credits:
  "credits (snd (settleCredit u h d)) = credits d \<or>
   (\<exists>k s. findCredit u d = Some k \<and> the_string h = Some s \<and>
       credits (snd (settleCredit u h d)) =
         credits (updateCredit (k\<lparr>k_creditBalance := 100,
                     k_settledTransactions := k_settledTransactions k @ [s]\<rparr>) d))"
  by (auto simp: settleCredit_def attachSettlement_def updateCredit_def Let_def
      split: option.splits prod.splits if_splits)

lemma settleCredit_contents: "contents (snd (settleCredit u h d)) = contents d"
  by (auto simp: settleCredit_def attachSettlement_def updateCredit_def Let_def
      split: option.splits prod.splits if_splits)

lemma claim_credits: "credits (snd (claimCreatorEarnings t now u a d)) = credits d"
  by (auto simp: claimCreatorEarnings_def incUserTotals_def Let_def
      split: option.splits prod.splits if_splits)

lemma claim_contents: "contents (snd (claimCreatorEarnings t now u a d)) = contents d"
  by (auto simp: claimCreatorEarnings_def incUserTotals_def Let_def
      split: option.splits prod.splits if_splits)

lemma getCreditBalance_snd: "snd (getCreditBalance u d) = snd (getOrCreateCredit u d)"
  by (simp add: getCreditBalance_def split: prod.splits)

lemma prices_valid_cong: "map c_price (contents d') = map c_price (contents d) \<Longrightarrow>
   prices_valid d' = prices_valid d"
proof -
  assume a: "map c_price (contents d') = map c_price (contents d)"
  have "prices_valid d = list_all (\<lambda>x. 0 \<le> x \<and> x \<le> 10000) (map c_price (contents d))" for d
    by (simp add: prices_valid_def list_all_iff)
  thus ?thesis using a by simp
qed

lemma handle_prices_valid: "prices_valid d \<Longrightarrow> prices_valid (snd (handle t r d))"
proof (cases r)
  case (GetCreditBalance u)
  obtain k d1 where g: "getOrCreateCredit u d = (k, d1)" by (cases "getOrCreateCredit u d")
  assume "prices_valid d"
  thus ?thesis using GetCreditBalance getOrCreate_rest[OF g] g
    by (simp add: getCreditBalance_snd prices_valid_def)
next
  case (CreatePurchase now u c)
  assume "prices_valid d"
  thus ?thesis using CreatePurchase prices_valid_cong[OF createPurchase_contents] by simp
next
  case (SettleCredit u h)
  assume "prices_valid d"
  thus ?thesis using SettleCredit by (simp add: prices_valid_def settleCredit_contents)
next
  case (ClaimCreatorEarnings now u a)
  assume "prices_valid d"
  thus ?thesis using ClaimCreatorEarnings by (simp add: prices_valid_def claim_contents)
qed

lemma credit_in_range_cong: "credits d' = credits d \<Longrightarrow> credit_in_range d' = credit_in_range d"
  by (simp add: credit_in_range_def)

lemma handle_credit_in_range:
  assumes pv: "prices_valid d" and cr: "credit_in_range d"
  shows "credit_in_range (snd (handle t r d))"
proof (cases r)
  case (GetCreditBalance u)
  obtain k d1 where g: "getOrCreateCredit u d = (k, d1)" by (cases "getOrCreateCredit u d")
  show ?thesis using GetCreditBalance getOrCreate_in_range[OF cr g] g
    by (simp add: getCreditBalance_snd)
next
  case (CreatePurchase now u c)
  obtain k d1 where g: "getOrCreateCredit u d = (k, d1)" by (cases "getOrCreateCredit u d")
  note gr = getOrCreate_in_range[OF cr g]
  let ?d' = "snd (createPurchase now u c d)"
  from createPurchase_credits[OF g, of now c]
  consider "credits ?d' = credits d" | "credits ?d' = credits d1"
    | x where "findContent c d = Some x" "c_price x \<le> k_creditBalance k"
        "credits ?d' = credits (updateCredit (k\<lparr>k_creditBalance := js_sub (k_creditBalance k) (c_price x)\<rparr>) d1)"
    by blast
  hence "credit_in_range ?d'"
  proof cases
    case 1 thus ?thesis using cr credit_in_range_cong by blast
  next
    case 2 thus ?thesis using gr credit_in_range_cong by blast
  next
    case 3
    have "0 \<le> c_price x" using findContent_price[OF pv 3(1)] by simp
    hence "0 \<le> js_sub (k_creditBalance k) (c_price x) \<and> js_sub (k_creditBalance k) (c_price x) \<le> 100"
      using gr 3(2) by (intro js_sub_in_range) auto
    hence "credit_in_range (updateCredit (k\<lparr>k_creditBalance := js_sub (k_creditBalance k) (c_price x)\<rparr>) d1)"
      using gr by (intro updateCredit_in_range) auto
    thus ?thesis using 3(3) credit_in_range_cong by blast
  qed
  thus ?thesis using CreatePurchase by simp
next
  case (SettleCredit u h)
  let ?d' = "snd (settleCredit u h d)"
  from settleCredit_credits[of u h d]
  consider "credits ?d' = credits d"
    | k s where "credits ?d' = credits (updateCredit (k\<lparr>k_creditBalance := 100,
                     k_settledTransactions := k_settledTransactions k @ [s]\<rparr>) d)"
    by blast
  hence "credit_in_range ?d'"
  proof cases
    case 1 thus ?thesis using cr credit_in_range_cong by blast
  next
    case 2
    have "credit_in_range (updateCredit (k\<lparr>k_creditBalance := 100,
                     k_settledTransactions := k_settledTransactions k @ [s]\<rparr>) d)"
      using cr by (intro updateCredit_in_range) auto
    thus ?thesis using 2 credit_in_range_cong by blast
  qed
  thus ?thesis using SettleCredit by simp
next
  case (ClaimCreatorEarnings now u a)
  thus ?thesis using cr credit_in_range_cong[OF claim_credits] by simp
qed

lemma run_invariant:
  "prices_valid d \<Longrightarrow> credit_in_range d \<Longrightarrow>
     prices_valid (run t rs d) \<and> credit_in_range (run t rs d)"
  by (induction rs arbitrary: d) (auto simp: handle_prices_valid handle_credit_in_range)


lemma createPurchase_Inr:
  assumes "createPurchase now u c d = (Inr r, d')"
  shows "\<exists>x k d1. findContent c d = Some x \<and> getOrCreateCredit u d = (k, d1) \<and>
           c_price x \<le> k_creditBalance k \<and>
           credits d' = credits (updateCredit (k\<lparr>k_creditBalance := js_sub (k_creditBalance k) (c_price x)\<rparr>) d1)"
  using assms
  by (auto simp: createPurchase_def savePurchase_def purchasePreSave_def incSalesCount_def
        incUserTotals_def updateCredit_def Let_def
      split: option.splits prod.splits if_splits)

lemma settleCredit_Inr:
  assumes "settleCredit u h d = (Inr r, d')"
  shows "\<exists>k s. findCredit u d = Some k \<and> h = JStr s \<and> s \<noteq> [] \<and>
           s \<notin> set (k_settledTransactions k) \<and>
           credits d' = credits (updateCredit (k\<lparr>k_creditBalance := 100,
                     k_settledTransactions := k_settledTransactions k @ [s]\<rparr>) d) \<and>
           purchases d' = map (\<lambda>p. if is_pending_purchase u p
                                    then p\<lparr>p_transactionHash := ''settled_'' @ s\<rparr> else p) (purchases d) \<and>
           contents d' = contents d \<and> users d' = users d \<and> nextId d' = nextId d"
proof -
  from assms obtain k where k: "findCredit u d = Some k"
    by (auto simp: settleCredit_def split: option.splits)
  from assms k obtain s where s: "h = JStr s" "s \<noteq> []"
    by (cases h) (auto simp: settleCredit_def Let_def split: option.splits if_splits)
  from assms k s have ns: "s \<notin> set (k_settledTransactions k)"
    by (auto simp: settleCredit_def Let_def split: option.splits if_splits)
  let ?k' = "k\<lparr>k_creditBalance := 100, k_settledTransactions := k_settledTransactions k @ [s]\<rparr>"
  let ?d1 = "updateCredit ?k' d"
  from assms k s ns obtain ps where
    u: "updateManyPurchases u (''settled_'' @ s) [] (purchases ?d1) = (None, ps)"
    and d': "d' = attachSettlement (map p_id (filter (is_pending_purchase u) (purchases d))) s (?d1\<lparr>purchases := ps\<rparr>)"
    by (auto simp: settleCredit_def Let_def split: option.splits if_splits prod.splits)
  have "ps = map (\<lambda>p. if is_pending_purchase u p
                      then p\<lparr>p_transactionHash := ''settled_'' @ s\<rparr> else p) (purchases d)"
    using updateManyPurchases_ok[OF u] by (simp add: updateCredit_def)
  thus ?thesis using k s ns d' by (simp add: attachSettlement_def updateCredit_def)
qed

lemma findCredit_user: "findCredit u d = Some k \<Longrightarrow> k_user k = u"
  by (auto simp: findCredit_def find_Some_iff)

lemma settleCredit_balance:
  assumes "settleCredit u h d = (Inr r, d')"
  shows "creditBalanceOf u d' = Some 100"
proof -
  from settleCredit_Inr[OF assms] obtain k s where k: "findCredit u d = Some k"
    and c: "credits d' = credits (updateCredit (k\<lparr>k_creditBalance := 100,
                     k_settledTransactions := k_settledTransactions k @ [s]\<rparr>) d)" by blast
  have "findCredit u (updateCredit (k\<lparr>k_creditBalance := 100,
                     k_settledTransactions := k_settledTransactions k @ [s]\<rparr>) d) =
        Some (k\<lparr>k_creditBalance := 100, k_settledTransactions := k_settledTransactions k @ [s]\<rparr>)"
    using k findCredit_user[OF k] by (intro findCredit_updateCredit) auto
  thus ?thesis using c by (simp add: creditBalanceOf_def findCredit_def)
qed

lemma createPurchase_balance:
  assumes "createPurchase now u c d = (Inr r, d')"
  shows "\<exists>x b. findContent c d = Some x \<and> k_creditBalance (fst (getOrCreateCredit u d)) = b \<and>
               c_price x \<le> b \<and> creditBalanceOf u d' = Some (js_sub b (c_price x))"
proof -
  from createPurchase_Inr[OF assms] obtain x k d1 where
    x: "findContent c d = Some x" and g: "getOrCreateCredit u d = (k, d1)"
    and le: "c_price x \<le> k_creditBalance k"
    and c: "credits d' = credits (updateCredit (k\<lparr>k_creditBalance := js_sub (k_creditBalance k) (c_price x)\<rparr>) d1)"
    by blast
  have "findCredit u (updateCredit (k\<lparr>k_creditBalance := js_sub (k_creditBalance k) (c_price x)\<rparr>) d1) =
          Some (k\<lparr>k_creditBalance := js_sub (k_creditBalance k) (c_price x)\<rparr>)"
    using findCredit_getOrCreate[OF g] getOrCreate_user[OF g] by (intro findCredit_updateCredit) auto
  hence "creditBalanceOf u d' = Some (js_sub (k_creditBalance k) (c_price x))"
    using c by (simp add: creditBalanceOf_def findCredit_def)
  thus ?thesis using x g le by simp
qed

lemma credit_in_range_balance:
  "credit_in_range d \<Longrightarrow> creditBalanceOf u d = Some b \<Longrightarrow> 0 \<le> b \<and> b \<le> 100"
  by (auto simp: credit_in_range_def creditBalanceOf_def findCredit_def find_Some_iff list_all_iff)

lemma getCreditBalance_creates:
  "findCredit u d = None \<Longrightarrow>
     creditBalanceOf u (snd (getCreditBalance u d)) = Some 100 \<and>
     k_creditBalance (fst (getOrCreateCredit u d)) = 100"
  by (simp add: getCreditBalance_def getOrCreateCredit_def creditBalanceOf_def findCredit_def
        find_snoc Let_def)

text \<open>
  Claim C1, as the code has it. From a database whose prices are in the range of the
  Content schema and whose balances are in \<open>[0, 100]\<close> (the empty ledger is one),
  every sequence of getCreditBalance, createPurchase, settleCredit and
  claimCreatorEarnings requests, failed ones included, leaves every balance in
  \<open>[0, 100]\<close>. A ledger is created with balance 100; a purchase that succeeds found
  the price \<open>p \<le> b\<close> and leaves \<open>b - p\<close> rounded to a double; a settlement that
  succeeds leaves 100.
\<close>

theorem credit_balance_stays_in_range:
  "(prices_valid d \<and> credit_in_range d \<longrightarrow>
      credit_in_range (run transfer rs d) \<and>
      (\<forall>u b. creditBalanceOf u (run transfer rs d) = Some b \<longrightarrow> 0 \<le> b \<and> b \<le> 100))
   \<and> (findCredit u d = None \<longrightarrow>
        creditBalanceOf u (snd (getCreditBalance u d)) = Some 100 \<and>
        k_creditBalance (fst (getOrCreateCredit u d)) = 100)
   \<and> (createPurchase now u c d = (Inr r, d') \<longrightarrow>
        (\<exists>x b. findContent c d = Some x \<and> k_creditBalance (fst (getOrCreateCredit u d)) = b \<and>
               c_price x \<le> b \<and> creditBalanceOf u d' = Some (js_sub b (c_price x))))
   \<and> (settleCredit u h d = (Inr r', d'') \<longrightarrow> creditBalanceOf u d'' = Some 100)"
  using run_invariant[of d transfer rs] credit_in_range_balance[of "run transfer rs d"]
    getCreditBalance_creates[of u d] createPurchase_balance[of now u c d r d']
    settleCredit_balance[of u h d r' d'']
  by blast

text \<open>
  In the shop: buyer 1 buys content 10, buyer 3 settles with \<^verbatim>\<open>0xabc\<close>, buyer 4 asks
  for the balance, creator 2 claims 100.
\<close>

theorem credit_balance_stays_in_range_witness:
  "prices_valid demo_db \<and> credit_in_range demo_db
   \<and> credit_in_range (run (\<lambda>w a. Some ''0xpay'')
         [CreatePurchase 5 1 10, SettleCredit 3 (JStr ''0xabc''), GetCreditBalance 4,
          ClaimCreatorEarnings 6 2 100] demo_db)
   \<and> creditBalanceOf 1 (run (\<lambda>w a. Some ''0xpay'')
         [CreatePurchase 5 1 10, SettleCredit 3 (JStr ''0xabc''), GetCreditBalance 4,
          ClaimCreatorEarnings 6 2 100] demo_db) = Some 70
   \<and> findCredit 1 demo_db = None
   \<and> creditBalanceOf 1 (snd (getCreditBalance 1 demo_db)) = Some 100
   \<and> fst (createPurchase 5 1 10 demo_db) = Inr (PurchaseCreated 104 1 10 30 ''credit_5'' PCompleted 70)
   \<and> creditBalanceOf 1 (snd (createPurchase 5 1 10 demo_db)) = Some 70
   \<and> fst (settleCredit 3 (JStr ''0xabc'') demo_db) = Inr (CreditSettled 80 ''0xabc'' 1 100)
   \<and> creditBalanceOf 3 (snd (settleCredit 3 (JStr ''0xabc'') demo_db)) = Some 100"
proof -
  let ?t = "\<lambda>(w::string) (a::rat). Some ''0xpay''"
  let ?rs = "[CreatePurchase 5 1 10, SettleCredit 3 (JStr ''0xabc''), GetCreditBalance 4,
              ClaimCreatorEarnings 6 2 100]"
  have pv: "prices_valid demo_db" and cr: "credit_in_range demo_db"
    by code_simp+
  have nl: "findCredit 1 demo_db = None"
    by code_simp
  have b70: "creditBalanceOf 1 (run ?t ?rs demo_db) = Some 70"
    by code_simp
  have f: "fst (createPurchase 5 1 10 demo_db) =
             Inr (PurchaseCreated 104 1 10 30 ''credit_5'' PCompleted 70)"
    by code_simp
  hence cp: "createPurchase 5 1 10 demo_db =
           (Inr (PurchaseCreated 104 1 10 30 ''credit_5'' PCompleted 70),
            snd (createPurchase 5 1 10 demo_db))"
    by (simp add: prod_eq_iff)
  have g: "fst (settleCredit 3 (JStr ''0xabc'') demo_db) = Inr (CreditSettled 80 ''0xabc'' 1 100)"
    by code_simp
  hence sc: "settleCredit 3 (JStr ''0xabc'') demo_db =
           (Inr (CreditSettled 80 ''0xabc'' 1 100), snd (settleCredit 3 (JStr ''0xabc'') demo_db))"
    by (simp add: prod_eq_iff)
  have k: "k_creditBalance (fst (getOrCreateCredit 1 demo_db)) = 100"
    and x: "findContent 10 demo_db = Some \<lparr>c_id = 10, c_creator = 2, c_price = 30, c_salesCount = 0\<rparr>"
    and s: "js_sub 100 30 = 70"
    by code_simp+
  note a = credit_balance_stays_in_range[of demo_db ?t ?rs 1 5 10
      "PurchaseCreated 104 1 10 30 ''credit_5'' PCompleted 70" "snd (createPurchase 5 1 10 demo_db)"]
  note b = credit_balance_stays_in_range[of demo_db ?t ?rs 3 5 10 _ _ "JStr ''0xabc''"
      "CreditSettled 80 ''0xabc'' 1 100" "snd (settleCredit 3 (JStr ''0xabc'') demo_db)"]
  from a pv cr nl cp k x s have
    "credit_in_range (run ?t ?rs demo_db)"
    "creditBalanceOf 1 (snd (getCreditBalance 1 demo_db)) = Some 100"
    "creditBalanceOf 1 (snd (createPurchase 5 1 10 demo_db)) = Some 70"
    by auto
  moreover from b sc have "creditBalanceOf 3 (snd (settleCredit 3 (JStr ''0xabc'') demo_db)) = Some 100"
    by blast
  ultimately show ?thesis using pv cr nl b70 f g by simp
qed

text \<open>
  Claim C1 as stated says that a purchase decrements the balance by exactly the price.
  In the second shop buyer 1, with 100 to spend, buys content 20, priced 4.65: the
  balance stored is the double 95.35, and 100 less the price is not a double.
\<close>

theorem balance_decrement_counterexample:
  "map_option c_price (findContent 20 cents_base) = Some (2617717283409101 / 562949953421312)
   \<and> k_creditBalance (fst (getOrCreateCredit 1 cents_base)) = 100
   \<and> fst (createPurchase 15 1 20 cents_base)
       = Inr (PurchaseCreated 201 1 20 (2617717283409101 / 562949953421312) ''credit_15''
                PCompleted (3354829878670131 / 35184372088832))
   \<and> creditBalanceOf 1 (snd (createPurchase 15 1 20 cents_base))
       \<noteq> Some (100 - 2617717283409101 / 562949953421312)
   \<and> \<not> is_double (100 - 2617717283409101 / 562949953421312)"
  by code_simp

subsection \<open>Stored balances are doubles\<close>

lemma getOrCreate_double:
  "balances_double d \<Longrightarrow> getOrCreateCredit u d = (k, d1) \<Longrightarrow>
     balances_double d1 \<and> is_double (k_creditBalance k)"
  by (auto simp: balances_double_def getOrCreateCredit_def findCredit_def find_Some_iff
        list_all_iff Let_def split: option.splits)

lemma updateCredit_double:
  "balances_double d \<Longrightarrow> is_double (k_creditBalance k) \<Longrightarrow> balances_double (updateCredit k d)"
  by (auto simp: balances_double_def updateCredit_def list_all_iff)

lemma balances_double_cong: "credits d' = credits d \<Longrightarrow> balances_double d' = balances_double d"
  by (simp add: balances_double_def)

lemma handle_balances_double:
  assumes bd: "balances_double d"
  shows "balances_double (snd (handle t r d))"
proof (cases r)
  case (GetCreditBalance u)
  obtain k d1 where g: "getOrCreateCredit u d = (k, d1)" by (cases "getOrCreateCredit u d")
  show ?thesis using GetCreditBalance getOrCreate_double[OF bd g] g
    by (simp add: getCreditBalance_snd)
next
  case (CreatePurchase now u c)
  obtain k d1 where g: "getOrCreateCredit u d = (k, d1)" by (cases "getOrCreateCredit u d")
  note gd = getOrCreate_double[OF bd g]
  let ?d' = "snd (createPurchase now u c d)"
  from createPurchase_credits[OF g, of now c]
  consider "credits ?d' = credits d" | "credits ?d' = credits d1"
    | x where "findContent c d = Some x" "c_price x \<le> k_creditBalance k"
        "credits ?d' = credits (updateCredit (k\<lparr>k_creditBalance := js_sub (k_creditBalance k) (c_price x)\<rparr>) d1)"
    by blast
  hence "balances_double ?d'"
  proof cases
    case 1 thus ?thesis using bd balances_double_cong by blast
  next
    case 2 thus ?thesis using gd balances_double_cong by blast
  next
    case 3
    have "balances_double (updateCredit (k\<lparr>k_creditBalance := js_sub (k_creditBalance k) (c_price x)\<rparr>) d1)"
      using gd by (intro updateCredit_double) auto
    thus ?thesis using 3(3) balances_double_cong by blast
  qed
  thus ?thesis using CreatePurchase by simp
next
  case (SettleCredit u h)
  let ?d' = "snd (settleCredit u h d)"
  from settleCredit_credits[of u h d]
  consider "credits ?d' = credits d"
    | k s where "credits ?d' = credits (updateCredit (k\<lparr>k_creditBalance := 100,
                     k_settledTransactions := k_settledTransactions k @ [s]\<rparr>) d)"
    by blast
  hence "balances_double ?d'"
  proof cases
    case 1 thus ?thesis using bd balances_double_cong by blast
  next
    case 2
    have "balances_double (updateCredit (k\<lparr>k_creditBalance := 100,
                     k_settledTransactions := k_settledTransactions k @ [s]\<rparr>) d)"
      using bd by (intro updateCredit_double) auto
    thus ?thesis using 2 balances_double_cong by blast
  qed
  thus ?thesis using SettleCredit by simp
next
  case (ClaimCreatorEarnings now u a)
  thus ?thesis using bd balances_double_cong[OF claim_credits] by simp
qed

lemma run_balances_double: "balances_double d \<Longrightarrow> balances_double (run t rs d)"
  by (induction rs arbitrary: d) (auto simp: handle_balances_double)

subsection \<open>Content that costs nothing\<close>




subsection \<open>Settlement and its repeat\<close>

lemma getOrCreate_wf:
  assumes "credit_ids_wf d" and "getOrCreateCredit u d = (k, d1)"
  shows "credit_ids_wf d1 \<and> nextId d \<le> nextId d1"
proof (cases "findCredit u d")
  case None
  hence d1: "credits d1 = credits d @ [k]" "k_id k = nextId d" "nextId d1 = Suc (nextId d)"
    using assms(2) by (auto simp: getOrCreateCredit_def Let_def)
  have lt: "\<forall>x \<in> set (credits d). k_id x < nextId d"
    using assms(1) by (simp add: credit_ids_wf_def list_all_iff)
  hence "nextId d \<notin> k_id ` set (credits d)" by auto
  moreover have "\<forall>x \<in> set (credits d). k_id x < Suc (nextId d)"
    using lt by (simp add: less_SucI)
  ultimately show ?thesis using assms(1) d1 by (simp add: credit_ids_wf_def list_all_iff)
next
  case (Some k0)
  hence "d1 = d" using assms(2) by (simp add: getOrCreateCredit_def)
  thus ?thesis using assms(1) by simp
qed

lemma wf_same:
  "credit_ids_wf d \<Longrightarrow> credits d' = credits d \<Longrightarrow> nextId d \<le> nextId d' \<Longrightarrow> credit_ids_wf d'"
  by (auto simp: credit_ids_wf_def list_all_iff)

lemma updateCredit_ids:
  "k_id k' = k_id k \<Longrightarrow> map k_id (map (\<lambda>x. if k_id x = k_id k then k' else x) ks) = map k_id ks"
  by (induction ks) auto

lemma wf_update:
  assumes "credit_ids_wf d1" and "credits d' = credits (updateCredit k' d1)"
    and "nextId d1 \<le> nextId d'"
  shows "credit_ids_wf d'"
proof -
  have m: "map k_id (credits d') = map k_id (credits d1)"
    using assms(2) updateCredit_ids[of k' k' "credits d1"] by (simp add: updateCredit_def)
  have "list_all (\<lambda>i. i < nextId d1) (map k_id (credits d1))"
    using assms(1) by (simp add: credit_ids_wf_def list_all_iff)
  hence "list_all (\<lambda>i. i < nextId d') (map k_id (credits d'))"
    using m assms(3) by (auto simp: list_all_iff)
  moreover have "distinct (map k_id (credits d'))" using m assms(1) by (simp add: credit_ids_wf_def)
  ultimately show ?thesis by (simp add: credit_ids_wf_def list_all_iff)
qed

lemma createPurchase_ledger:
  assumes "getOrCreateCredit u d = (k, d1)"
  shows "snd (createPurchase now u c d) = d \<or>
         (nextId d1 \<le> nextId (snd (createPurchase now u c d)) \<and>
          (credits (snd (createPurchase now u c d)) = credits d1 \<or>
           (\<exists>b. credits (snd (createPurchase now u c d)) =
                  credits (updateCredit (k\<lparr>k_creditBalance := b\<rparr>) d1))))"
  using assms
  by (auto simp: createPurchase_def savePurchase_def purchasePreSave_def incSalesCount_def
        incUserTotals_def updateCredit_def Let_def
      split: option.splits prod.splits if_splits)

lemma settleCredit_ledger:
  "snd (settleCredit u h d) = d \<or>
   (nextId (snd (settleCredit u h d)) = nextId d \<and>
    (\<exists>k s. findCredit u d = Some k \<and>
       credits (snd (settleCredit u h d)) =
         credits (updateCredit (k\<lparr>k_creditBalance := 100,
                     k_settledTransactions := k_settledTransactions k @ [s]\<rparr>) d)))"
  by (auto simp: settleCredit_def attachSettlement_def updateCredit_def Let_def
      split: option.splits prod.splits if_splits)

lemma claim_nextId: "nextId (snd (claimCreatorEarnings t now u a d)) = nextId d"
  by (auto simp: claimCreatorEarnings_def incUserTotals_def Let_def
      split: option.splits prod.splits if_splits)

lemma handle_wf:
  assumes wf: "credit_ids_wf d"
  shows "credit_ids_wf (snd (handle t r d))"
proof (cases r)
  case (GetCreditBalance u)
  obtain k d1 where g: "getOrCreateCredit u d = (k, d1)" by (cases "getOrCreateCredit u d")
  show ?thesis using GetCreditBalance getOrCreate_wf[OF wf g] g by (simp add: getCreditBalance_snd)
next
  case (CreatePurchase now u c)
  obtain k d1 where g: "getOrCreateCredit u d = (k, d1)" by (cases "getOrCreateCredit u d")
  note w1 = getOrCreate_wf[OF wf g]
  let ?d' = "snd (createPurchase now u c d)"
  from createPurchase_ledger[OF g, of now c]
  consider "?d' = d" | "nextId d1 \<le> nextId ?d'" "credits ?d' = credits d1"
    | b where "nextId d1 \<le> nextId ?d'"
        "credits ?d' = credits (updateCredit (k\<lparr>k_creditBalance := b\<rparr>) d1)"
    by blast
  hence "credit_ids_wf ?d'"
  proof cases
    case 1 thus ?thesis using wf by simp
  next
    case 2 thus ?thesis using w1 wf_same by blast
  next
    case 3 thus ?thesis using w1 wf_update by blast
  qed
  thus ?thesis using CreatePurchase by simp
next
  case (SettleCredit u h)
  let ?d' = "snd (settleCredit u h d)"
  from settleCredit_ledger[of u h d]
  consider "?d' = d"
    | k s where "nextId ?d' = nextId d"
       "credits ?d' = credits (updateCredit (k\<lparr>k_creditBalance := 100,
                     k_settledTransactions := k_settledTransactions k @ [s]\<rparr>) d)"
    by blast
  hence "credit_ids_wf ?d'"
  proof cases
    case 1 thus ?thesis using wf by simp
  next
    case 2 thus ?thesis using wf wf_update[OF wf 2(2)] by simp
  qed
  thus ?thesis using SettleCredit by simp
next
  case (ClaimCreatorEarnings now u a)
  thus ?thesis using wf wf_same[OF wf claim_credits] by (simp add: claim_nextId)
qed

lemma find_replace_other:
  assumes "\<forall>x \<in> set ks. k_id x = i \<longrightarrow> k_user x \<noteq> u" and "k_user k' \<noteq> u"
  shows "find (\<lambda>x. k_user x = u) (map (\<lambda>x. if k_id x = i then k' else x) ks) =
         find (\<lambda>x. k_user x = u) ks"
  using assms by (induction ks) auto

lemma settledWith_cong: "credits d' = credits d \<Longrightarrow> settledWith u s d' = settledWith u s d"
  by (simp add: settledWith_def findCredit_def)

lemma settledWith_getOrCreate:
  "settledWith u s d \<Longrightarrow> getOrCreateCredit u' d = (k, d1) \<Longrightarrow> settledWith u s d1"
  by (auto simp: settledWith_def getOrCreateCredit_def findCredit_def find_snoc Let_def
      split: option.splits)

lemma settledWith_update:
  assumes wf: "credit_ids_wf d" and sw: "settledWith u s d"
    and k: "findCredit u' d = Some k"
    and id: "k_id k' = k_id k" and us: "k_user k' = k_user k"
    and sub: "set (k_settledTransactions k) \<subseteq> set (k_settledTransactions k')"
  shows "settledWith u s (updateCredit k' d)"
proof (cases "u' = u")
  case True
  have "findCredit u (updateCredit k' d) = Some k'"
    using k True id us findCredit_user[OF k] by (intro findCredit_updateCredit) auto
  thus ?thesis using sw k True sub by (auto simp: settledWith_def)
next
  case False
  have ku: "k_user k = u'" by (rule findCredit_user[OF k])
  have kin: "k \<in> set (credits d)" using k by (auto simp: findCredit_def find_Some_iff)
  have "\<forall>x \<in> set (credits d). k_id x = k_id k \<longrightarrow> k_user x \<noteq> u"
  proof (intro ballI impI)
    fix x assume "x \<in> set (credits d)" "k_id x = k_id k"
    hence "x = k" using wf kin by (auto simp: credit_ids_wf_def distinct_map inj_on_def)
    thus "k_user x \<noteq> u" using ku False by simp
  qed
  hence "findCredit u (updateCredit k' d) = findCredit u d"
    using us ku False id unfolding findCredit_def updateCredit_def
    by (simp add: find_replace_other)
  thus ?thesis using sw by (simp add: settledWith_def)
qed

lemma handle_settledWith:
  assumes wf: "credit_ids_wf d" and sw: "settledWith v s d"
  shows "settledWith v s (snd (handle t r d))"
proof (cases r)
  case (GetCreditBalance u)
  obtain k d1 where g: "getOrCreateCredit u d = (k, d1)" by (cases "getOrCreateCredit u d")
  show ?thesis using GetCreditBalance settledWith_getOrCreate[OF sw g] g
    by (simp add: getCreditBalance_snd)
next
  case (CreatePurchase now u c)
  obtain k d1 where g: "getOrCreateCredit u d = (k, d1)" by (cases "getOrCreateCredit u d")
  note w1 = getOrCreate_wf[OF wf g] and s1 = settledWith_getOrCreate[OF sw g]
    and f1 = findCredit_getOrCreate[OF g]
  let ?d' = "snd (createPurchase now u c d)"
  from createPurchase_ledger[OF g, of now c]
  consider "?d' = d" | "credits ?d' = credits d1"
    | b where "credits ?d' = credits (updateCredit (k\<lparr>k_creditBalance := b\<rparr>) d1)"
    by blast
  hence "settledWith v s ?d'"
  proof cases
    case 1 thus ?thesis using sw by simp
  next
    case 2 thus ?thesis using s1 settledWith_cong by blast
  next
    case 3
    have "settledWith v s (updateCredit (k\<lparr>k_creditBalance := b\<rparr>) d1)"
      using w1 s1 f1 by (intro settledWith_update[where k = k and u' = u]) auto
    thus ?thesis using 3 settledWith_cong by blast
  qed
  thus ?thesis using CreatePurchase by simp
next
  case (SettleCredit u h)
  let ?d' = "snd (settleCredit u h d)"
  from settleCredit_ledger[of u h d]
  consider "?d' = d"
    | k x where "findCredit u d = Some k"
       "credits ?d' = credits (updateCredit (k\<lparr>k_creditBalance := 100,
                     k_settledTransactions := k_settledTransactions k @ [x]\<rparr>) d)"
    by blast
  hence "settledWith v s ?d'"
  proof cases
    case 1 thus ?thesis using sw by simp
  next
    case 2
    have "settledWith v s (updateCredit (k\<lparr>k_creditBalance := 100,
                     k_settledTransactions := k_settledTransactions k @ [x]\<rparr>) d)"
      using wf sw 2(1) by (intro settledWith_update[where k = k and u' = u]) auto
    thus ?thesis using 2(2) settledWith_cong by blast
  qed
  thus ?thesis using SettleCredit by simp
next
  case (ClaimCreatorEarnings now u a)
  thus ?thesis using sw settledWith_cong[OF claim_credits] by simp
qed

lemma run_settledWith:
  "credit_ids_wf d \<Longrightarrow> settledWith v s d \<Longrightarrow>
     credit_ids_wf (run t rs d) \<and> settledWith v s (run t rs d)"
  by (induction rs arbitrary: d) (auto simp: handle_wf handle_settledWith)

text \<open>A repeat in any database whose ledger records the reference.\<close>

lemma settleCredit_repeat:
  assumes "settledWith u s d" and "s \<noteq> []"
  shows "settleCredit u (JStr s) d =
           (Inl (if filter (is_pending_purchase u) (purchases d) = []
                 then NothingToSettle else DuplicateSettlement), d)"
  using assms by (auto simp: settleCredit_def settledWith_def Let_def split: option.splits)


lemma nothing_pending_after_settle:
  "filter (is_pending_purchase u)
     (map (\<lambda>p. if is_pending_purchase u p then p\<lparr>p_transactionHash := ''settled_'' @ s\<rparr> else p) ps) = []"
  by (induction ps) (auto simp: is_pending_purchase_def is_credit_marker_def starts_with_def)

text \<open>
  Claim C2, as the code has it. A settlement that succeeds leaves the balance 100. A
  repeat with the same reference never succeeds and changes nothing. Directly after the
  settlement it fails with NothingToSettle: no purchase of the buyer carries the credit
  marker any more, and that check comes before the check of the reference. After any
  further requests it fails with NothingToSettle as long as the buyer has no purchase on
  credit, and with DuplicateSettlement once there is one.
\<close>

theorem settle_resets_and_repeat_is_rejected:
  assumes ok: "settleCredit u h d = (Inr r, d')" and wf: "credit_ids_wf d"
  shows "creditBalanceOf u d' = Some 100
       \<and> settleCredit u h d' = (Inl NothingToSettle, d')
       \<and> settleCredit u h (run transfer rs d') =
           (Inl (if filter (is_pending_purchase u) (purchases (run transfer rs d')) = []
                 then NothingToSettle else DuplicateSettlement),
            run transfer rs d')"
proof -
  from settleCredit_Inr[OF ok] obtain k s where k: "findCredit u d = Some k"
    and h: "h = JStr s" and ne: "s \<noteq> []"
    and c: "credits d' = credits (updateCredit (k\<lparr>k_creditBalance := 100,
                     k_settledTransactions := k_settledTransactions k @ [s]\<rparr>) d)"
    and ps: "purchases d' = map (\<lambda>p. if is_pending_purchase u p
                                    then p\<lparr>p_transactionHash := ''settled_'' @ s\<rparr> else p) (purchases d)"
    and n: "nextId d' = nextId d" by blast
  let ?k' = "k\<lparr>k_creditBalance := 100, k_settledTransactions := k_settledTransactions k @ [s]\<rparr>"
  have "findCredit u (updateCredit ?k' d) = Some ?k'"
    using k findCredit_user[OF k] by (intro findCredit_updateCredit) auto
  hence sw: "settledWith u s d'" using c by (simp add: settledWith_def findCredit_def)
  have wf': "credit_ids_wf d'" using wf_update[OF wf c] n by simp
  have none: "filter (is_pending_purchase u) (purchases d') = []"
    using ps by (simp add: nothing_pending_after_settle)
  have 1: "creditBalanceOf u d' = Some 100" by (rule settleCredit_balance[OF ok])
  have 2: "settleCredit u h d' = (Inl NothingToSettle, d')"
    using settleCredit_repeat[OF sw ne] none h by simp
  have "settledWith u s (run transfer rs d')" using run_settledWith[OF wf' sw] by simp
  from settleCredit_repeat[OF this ne] h 1 2 show ?thesis by simp
qed

text \<open>
  In the shop: buyer 3 settles with \<^verbatim>\<open>0xabc\<close>; the repeat finds nothing to settle;
  after buyer 3 has bought content 10 the repeat is a duplicate.
\<close>

theorem settle_resets_and_repeat_is_rejected_witness:
  "credit_ids_wf demo_db
   \<and> fst (settleCredit 3 (JStr ''0xabc'') demo_db) = Inr (CreditSettled 80 ''0xabc'' 1 100)
   \<and> creditBalanceOf 3 (snd (settleCredit 3 (JStr ''0xabc'') demo_db)) = Some 100
   \<and> fst (settleCredit 3 (JStr ''0xabc'') (snd (settleCredit 3 (JStr ''0xabc'') demo_db)))
       = Inl NothingToSettle
   \<and> fst (settleCredit 3 (JStr ''0xabc'')
           (run (\<lambda>w a. None) [CreatePurchase 6 3 10] (snd (settleCredit 3 (JStr ''0xabc'') demo_db))))
       = Inl DuplicateSettlement"
proof -
  let ?d' = "snd (settleCredit 3 (JStr ''0xabc'') demo_db)"
  let ?t = "\<lambda>(w::string) (a::rat). None :: string option"
  have wf: "credit_ids_wf demo_db" by code_simp
  have g: "fst (settleCredit 3 (JStr ''0xabc'') demo_db) = Inr (CreditSettled 80 ''0xabc'' 1 100)"
    by code_simp
  hence ok: "settleCredit 3 (JStr ''0xabc'') demo_db = (Inr (CreditSettled 80 ''0xabc'' 1 100), ?d')"
    by (simp add: prod_eq_iff)
  have p: "filter (is_pending_purchase 3) (purchases (run ?t [CreatePurchase 6 3 10] ?d')) \<noteq> []"
    by code_simp
  from settle_resets_and_repeat_is_rejected[OF ok wf, of ?t "[CreatePurchase 6 3 10]"] p wf g
  show ?thesis by simp
qed

text \<open>
  Claim C2 as stated says that the second call fails with DuplicateSettlement. In the
  shop the second call of buyer 3 fails with NothingToSettle.
\<close>

theorem repeated_settlement_counterexample:
  "fst (settleCredit 3 (JStr ''0xabc'') demo_db) = Inr (CreditSettled 80 ''0xabc'' 1 100)
   \<and> fst (settleCredit 3 (JStr ''0xabc'') (snd (settleCredit 3 (JStr ''0xabc'') demo_db)))
       = Inl NothingToSettle
   \<and> fst (settleCredit 3 (JStr ''0xabc'') (snd (settleCredit 3 (JStr ''0xabc'') demo_db)))
       \<noteq> Inl DuplicateSettlement"
  by code_simp

subsection \<open>The reference of a settlement\<close>

text \<open>
  Claim C8. The check under the comment \<^verbatim>\<open>Validate transaction hash format\<close> is
  \<^verbatim>\<open>!transactionHash || typeof transactionHash !== 'string'\<close>: every non-empty string
  passes. In the shop buyer 3 settles with \<^verbatim>\<open>not-a-hash\<close>, ten characters where the
  vault's validator asks for 66: the settlement succeeds and the ledger records the
  reference.
\<close>

theorem settle_accepts_any_nonempty_string:
  "\<not> has_hash_shape ''not-a-hash'' \<and>
   fst (settleCredit 3 (JStr ''not-a-hash'') demo_db) = Inr (CreditSettled 80 ''not-a-hash'' 1 100) \<and>
   settledWith 3 ''not-a-hash'' (snd (settleCredit 3 (JStr ''not-a-hash'') demo_db))"
  by code_simp

subsection \<open>Claims that are refused\<close>




text \<open>
  Claim C6, as the code has it. The total a claim is compared with is the sum the code
  computes: the pending amounts added oldest first, each addition rounded to a double.
  A claim of more than that total never succeeds and changes nothing. The error is the
  first check that fails: InvalidAmount, NoPayoutAddress, NoPendingEarnings, and
  ExceedsAvailable only when the amount is positive, the creator has a wallet address
  and at least one earning is pending.
\<close>

theorem claim_above_pending_never_succeeds:
  assumes "sumEarnings (pendingEarningsOf u d) < A"
  shows "claimCreatorEarnings transfer now u A d =
           (Inl (if A \<le> 0 then InvalidAmount
                 else if \<not> (\<exists>c. findUser u d = Some c \<and> u_walletAddress c \<noteq> []) then NoPayoutAddress
                 else if pendingEarningsOf u d = [] then NoPendingEarnings
                 else ExceedsAvailable), d)"
  using assms
  by (auto simp: claimCreatorEarnings_def Let_def split: option.splits)

text \<open>In the shop: creator 2 has 180 pending and claims 200.\<close>

theorem claim_above_pending_never_succeeds_witness:
  "sumEarnings (pendingEarningsOf 2 demo_db) < 200 \<and>
   claimCreatorEarnings (\<lambda>w a. Some ''0xpay'') 6 2 200 demo_db = (Inl ExceedsAvailable, demo_db)"
proof -
  have a: "sumEarnings (pendingEarningsOf 2 demo_db) < 200"
    and b: "\<not> (200::rat) \<le> 0"
    and c: "\<exists>c. findUser 2 demo_db = Some c \<and> u_walletAddress c \<noteq> []"
    and e: "pendingEarningsOf 2 demo_db \<noteq> []"
    by (code_simp, simp, simp add: findUser_def demo_db_def, code_simp)
  from claim_above_pending_never_succeeds[OF a, of "\<lambda>w a. Some ''0xpay''" 6] a b c e
  show ?thesis by simp
qed

text \<open>
  Claim C6 as stated says that the error is ExceedsAvailable for every creator, and that
  no claim above the sum of the pending amounts succeeds. User 1 of the first shop has a
  wallet and no earnings: a claim of 5 exceeds the pending sum 0 and is refused with
  NoPendingEarnings. Creator 6 of the second shop has 0.1 and 0.2 pending; the code adds
  them to 0.30000000000000004, which is more than their sum, and a claim of that amount
  is paid out.
\<close>

theorem claim_without_pending_counterexample:
  "earningsTotal Pending 1 demo_db < 5
   \<and> fst (claimCreatorEarnings (\<lambda>w a. Some ''0xpay'') 6 1 5 demo_db) = Inl NoPendingEarnings
   \<and> fst (claimCreatorEarnings (\<lambda>w a. Some ''0xpay'') 6 1 5 demo_db) \<noteq> Inl ExceedsAvailable
   \<and> map e_amount (pendingEarningsOf 6 cents_db) = [3602879701896397 / 36028797018963968, 3602879701896397 / 18014398509481984]
   \<and> earningsTotal Pending 6 cents_db < (1351079888211149 / 4503599627370496)
   \<and> fst (claimCreatorEarnings (\<lambda>w a. Some ''0xpay'') 20 6
             (1351079888211149 / 4503599627370496) cents_db)
       = Inr (EarningsClaimed (1351079888211149 / 4503599627370496) 2 0
                ''0xpay'' ''0xc6'')
   \<and> earningsTotal Pending 6
         (snd (claimCreatorEarnings (\<lambda>w a. Some ''0xpay'') 20 6
                 (1351079888211149 / 4503599627370496) cents_db)) = 0"
  by code_simp

text \<open>
  Claim C7. The transfer is called once the amount, the wallet address and the pending
  earnings have passed their checks. When it fails, the claim fails with PayoutFailed and
  the database is the one before: no earning and no total has changed.
\<close>

theorem failed_payout_changes_nothing:
  assumes "0 < A" and "findUser u d = Some c" and "u_walletAddress c \<noteq> []"
    and "pendingEarningsOf u d \<noteq> []" and "A \<le> sumEarnings (pendingEarningsOf u d)"
    and "transfer (u_walletAddress c) A = None"
  shows "claimCreatorEarnings transfer now u A d = (Inl PayoutFailed, d)"
  using assms by (auto simp: claimCreatorEarnings_def Let_def)

text \<open>In the shop: creator 2 claims 100 and the payout service is down.\<close>

theorem failed_payout_changes_nothing_witness:
  "claimCreatorEarnings (\<lambda>w a. None) 6 2 100 demo_db = (Inl PayoutFailed, demo_db)"
proof -
  have "findUser 2 demo_db = Some \<lparr>u_id = 2, u_walletAddress = ''0xc2'', u_totalEarnings = 180, u_totalSales = 0\<rparr>"
    by (simp add: findUser_def demo_db_def)
  moreover have "pendingEarningsOf 2 demo_db \<noteq> []" "100 \<le> sumEarnings (pendingEarningsOf 2 demo_db)"
    by code_simp+
  ultimately show ?thesis
    using failed_payout_changes_nothing[of 100 2 demo_db _ "\<lambda>w a. None" 6] by simp
qed

subsection \<open>Claims that are paid\<close>

text \<open>
  Claim C3. A claim adds the requested amount to the creator's \<^verbatim>\<open>totalEarnings\<close> and
  marks whole earnings claimed. In the shop creator 2 claims 30: the response reports
  150 of the 180 still pending, \<^verbatim>\<open>totalEarnings\<close> grows by 30, and the earning of 100 is
  claimed as a whole, so that the claimed earnings sum to 100 and 80 are pending.
\<close>

theorem unaligned_claim_breaks_claimed_total:
  "fst (claimCreatorEarnings (\<lambda>w a. Some ''0xpay'') 6 2 30 demo_db)
     = Inr (EarningsClaimed 30 1 150 ''0xpay'' ''0xc2'')
   \<and> earningsTotal Claimed 2 demo_db = 0
   \<and> earningsTotal Claimed 2 (snd (claimCreatorEarnings (\<lambda>w a. Some ''0xpay'') 6 2 30 demo_db)) = 100
   \<and> earningsTotal Pending 2 (snd (claimCreatorEarnings (\<lambda>w a. Some ''0xpay'') 6 2 30 demo_db)) = 80
   \<and> totalEarningsOf 2 (snd (claimCreatorEarnings (\<lambda>w a. Some ''0xpay'') 6 2 30 demo_db))
       - totalEarningsOf 2 demo_db = 30"
  by code_simp



lemma remainingAfter_Nil [simp]: "remainingAfter rem [] = rem"
  by (simp add: remainingAfter_def)

lemma remainingAfter_Cons [simp]:
  "remainingAfter rem (e # es) = remainingAfter (js_sub rem (min rem (e_amount e))) es"
  by (simp add: remainingAfter_def)




lemma markClaimed_id [simp]: "e_id (markClaimed now tx e) = e_id e"
  by (simp add: markClaimed_def)












end
